theory Spec2Isabelle
  imports Complex_Main "HOL-Library.Multiset" "HOL-Library.Char_ord" "HOL-Library.List_Lexorder"
begin

section \<open>Strings\<close>

text \<open>
  JavaScript strings are modelled as \<^typ>\<open>string\<close>, read as ASCII text. The string
  methods the sources call are written out here with the result JavaScript gives on ASCII.
\<close>

definition lowerChar :: "char \<Rightarrow> char" where
  "lowerChar c =
     (let n = (of_char c :: nat) in if 65 \<le> n \<and> n \<le> 90 then char_of (n + 32) else c)"

text \<open>\<^verbatim>\<open>s.toLowerCase()\<close>\<close>

definition toLowerCase :: "string \<Rightarrow> string" where
  "toLowerCase s = map lowerChar s"

fun startsWith :: "string \<Rightarrow> string \<Rightarrow> bool" where
  "startsWith s [] = True"
| "startsWith [] (w # ws) = False"
| "startsWith (c # cs) (w # ws) = (c = w \<and> startsWith cs ws)"

text \<open>\<^verbatim>\<open>s.includes(w)\<close>; a regular expression that is a bare literal tests the same.\<close>

fun includesStr :: "string \<Rightarrow> string \<Rightarrow> bool" where
  "includesStr [] w = (w = [])"
| "includesStr (c # cs) w = (startsWith (c # cs) w \<or> includesStr cs w)"

text \<open>
  \<^verbatim>\<open>/w1|w2|...|wn/.test(s)\<close> for an alternation of literals: some alternative occurs
  in \<open>s\<close>.
\<close>

definition testAny :: "string list \<Rightarrow> string \<Rightarrow> bool" where
  "testAny ws s = list_ex (includesStr s) ws"

text \<open>\<^verbatim>\<open>xs.join(sep)\<close>\<close>

fun join :: "string \<Rightarrow> string list \<Rightarrow> string" where
  "join sep [] = []"
| "join sep [x] = x"
| "join sep (x # y # ys) = x @ sep @ join sep (y # ys)"

text \<open>\<^verbatim>\<open>xs.filter(Boolean)\<close> on strings drops the empty ones.\<close>

definition filterBoolean :: "string list \<Rightarrow> string list" where
  "filterBoolean xs = filter (\<lambda>s. s \<noteq> []) xs"

section \<open>Confidence score (helpers.ts)\<close>

text \<open>
  The \<^verbatim>\<open>Summary\<close> interface: every field is optional, \<open>None\<close> is \<^verbatim>\<open>undefined\<close>.
\<close>

record Summary =
  s_domain :: "string option"
  s_subject :: "string option"
  s_subjects :: "string list option"
  s_from :: "string option"
  s_emailCount :: "int option"

text \<open>\<^verbatim>\<open>x || ""\<close>\<close>

definition orEmpty :: "string option \<Rightarrow> string" where
  "orEmpty x = (case x of None \<Rightarrow> [] | Some s \<Rightarrow> s)"

text \<open>
  \<^verbatim>\<open>(summary.subjects || [summary.subject] || []).filter(Boolean).join(" ").toLowerCase()\<close>.
  An array, also the empty one, is truthy, so the single subject is used only when
  \<^verbatim>\<open>subjects\<close> is absent.
\<close>

definition allSubjects :: "Summary \<Rightarrow> string" where
  "allSubjects summary =
     toLowerCase (join '' ''
       (case s_subjects summary of
          Some xs \<Rightarrow> filterBoolean xs
        | None \<Rightarrow> (case s_subject summary of None \<Rightarrow> [] | Some s \<Rightarrow> filterBoolean [s])))"

definition onboardingWords :: "string list" where
  "onboardingWords =
     [''account created'', ''welcome to'', ''registration successful'',
      [CHR ''y'', CHR ''o'', CHR ''u'', CHR 0x27, CHR ''r'', CHR ''e''] @ '' all set'']"

definition verificationWords :: "string list" where
  "verificationWords = [''verify your email'', ''confirm your email'', ''verify your account'']"

definition securityWords :: "string list" where
  "securityWords =
     [''password reset'', ''security alert'', ''two-factor'', ''2fa'', ''verification code'']"

definition transactionalWords :: "string list" where
  "transactionalWords =
     [''receipt'', ''order confirmation'', ''invoice'', ''payment received'', ''purchase'']"

definition billingWords :: "string list" where
  "billingWords = [''subscription'', ''trial started'', ''billing'', ''renewed'']"

definition managementWords :: "string list" where
  "managementWords = [''account closed'', ''account deletion'', ''reactivate'']"

definition automatedFromWords :: "string list" where
  "automatedFromWords = [''noreply@'', ''no-reply@'', ''notifications@'', ''accounts@'']"

definition automatedDomainWords :: "string list" where
  "automatedDomainWords = [''noreply'', ''no-reply'', ''notifications'', ''accounts'']"

definition freemailWords :: "string list" where
  "freemailWords =
     [''gmail.com'', ''yahoo.com'', ''hotmail.com'', ''outlook.com'', ''aol.com'', ''icloud.com'']"

text \<open>The volume band: \<^verbatim>\<open>summary.emailCount || 0\<close> against 20, 10, 5 and 2.\<close>

definition volumeBonus :: "int option \<Rightarrow> nat" where
  "volumeBonus ec =
     (let emailCount = (case ec of None \<Rightarrow> 0 | Some n \<Rightarrow> n) in
      if emailCount \<ge> 20 then 6
      else if emailCount \<ge> 10 then 4
      else if emailCount \<ge> 5 then 2
      else if emailCount \<ge> 2 then 1
      else 0)"

definition calculateConfidenceScore :: "Summary \<Rightarrow> nat" where
  "calculateConfidenceScore summary =
     (let domain = toLowerCase (orEmpty (s_domain summary));
          subs = allSubjects summary;
          from = toLowerCase (orEmpty (s_from summary))
      in (if testAny onboardingWords subs then 10 else 0)
       + (if testAny verificationWords subs then 9 else 0)
       + (if testAny securityWords subs then 8 else 0)
       + (if testAny transactionalWords subs then 7 else 0)
       + (if testAny billingWords subs then 6 else 0)
       + (if testAny managementWords subs then 5 else 0)
       + (if testAny automatedFromWords from \<or> testAny automatedDomainWords domain then 4 else 0)
       + (if \<not> testAny freemailWords domain then 3 else 0)
       + volumeBonus (s_emailCount summary))"

text \<open>
  All the words the subject signals look for, and the condition that, for a list of
  subjects, every such word found in the joined text is found inside one of the subjects
  (no match runs across the space put between two subjects).
\<close>

definition subjectWords :: "string list" where
  "subjectWords =
     onboardingWords @ verificationWords @ securityWords @ transactionalWords @ billingWords
       @ managementWords"

definition matchesWithinOne :: "string list \<Rightarrow> bool" where
  "matchesWithinOne subjects =
     list_all
       (\<lambda>w. includesStr (toLowerCase (join '' '' (filterBoolean subjects))) w \<longrightarrow>
            list_ex (\<lambda>s. includesStr (toLowerCase s) w) subjects)
       subjectWords"

section \<open>Sender address and canonical domain (extraction.ts, domains.ts)\<close>

definition isLineTerminator :: "char \<Rightarrow> bool" where
  "isLineTerminator c = (c = CHR 0x0A \<or> c = CHR 0x0D)"

definition isSpace :: "char \<Rightarrow> bool" where
  "isSpace c = (c \<in> set [CHR 0x20, CHR 0x09, CHR 0x0A, CHR 0x0B, CHR 0x0C, CHR 0x0D])"

text \<open>\<^verbatim>\<open>s.trim()\<close>\<close>

definition trim :: "string \<Rightarrow> string" where
  "trim s = rev (dropWhile isSpace (rev (dropWhile isSpace s)))"

definition isAlpha :: "char \<Rightarrow> bool" where
  "isAlpha c =
     (let n = (of_char c :: nat) in (65 \<le> n \<and> n \<le> 90) \<or> (97 \<le> n \<and> n \<le> 122))"

definition isDigit :: "char \<Rightarrow> bool" where
  "isDigit c = (let n = (of_char c :: nat) in 48 \<le> n \<and> n \<le> 57)"

text \<open>
  \<^verbatim>\<open>from.match(/<([^>]+)>/)\<close>: the capture group of the leftmost match. At a \<open><\<close> the
  greedy class takes every character up to the next \<open>>\<close>; the match needs at least one
  such character and the closing \<open>>\<close>.
\<close>

fun matchAngle :: "string \<Rightarrow> string option" where
  "matchAngle [] = None"
| "matchAngle (c # cs) =
     (if c = CHR ''<'' then
        (let g = takeWhile (\<lambda>x. x \<noteq> CHR ''>'') cs;
             r = dropWhile (\<lambda>x. x \<noteq> CHR ''>'') cs
         in if g \<noteq> [] \<and> r \<noteq> [] then Some g else matchAngle cs)
      else matchAngle cs)"

text \<open>
  \<^verbatim>\<open>email.match(/<(.+?)>/)\<close>: the dot takes any character but a line terminator, the
  first one may be \<open>>\<close> itself, and the lazy repetition stops at the first \<open>>\<close> after it.
\<close>

fun matchAngleLazy :: "string \<Rightarrow> string option" where
  "matchAngleLazy [] = None"
| "matchAngleLazy [c] = None"
| "matchAngleLazy (c # d # ds) =
     (if c = CHR ''<'' then
        (let g = takeWhile (\<lambda>x. x \<noteq> CHR ''>'') ds;
             r = dropWhile (\<lambda>x. x \<noteq> CHR ''>'') ds
         in if \<not> isLineTerminator d \<and> list_all (\<lambda>x. \<not> isLineTerminator x) g \<and> r \<noteq> []
            then Some (d # g) else matchAngleLazy (d # ds))
      else matchAngleLazy (d # ds))"

definition isLocalChar :: "char \<Rightarrow> bool" where
  "isLocalChar c = (isAlpha c \<or> isDigit c \<or> c \<in> set ''._%+-'')"

definition isHostChar :: "char \<Rightarrow> bool" where
  "isHostChar c = (isAlpha c \<or> isDigit c \<or> c = CHR ''.'' \<or> c = CHR ''-'')"

text \<open>
  The tail \<^verbatim>\<open>\.[a-zA-Z]{2,}\<close> inside a run of host characters: the greedy class before it
  gives back characters from the right, so the dot taken is the last one followed by two
  letters, and the letters after it are taken greedily. The result is the matched text
  from the head of the run.
\<close>

fun lastTld :: "string \<Rightarrow> string option" where
  "lastTld [] = None"
| "lastTld (c # cs) =
     (case lastTld cs of
        Some m \<Rightarrow> Some (c # m)
      | None \<Rightarrow>
          if c = CHR ''.'' \<and> length (takeWhile isAlpha cs) \<ge> 2
          then Some (c # takeWhile isAlpha cs) else None)"

text \<open>
  \<^verbatim>\<open>from.match(/[a-zA-Z0-9._%+-]+@[a-zA-Z0-9.-]+\.[a-zA-Z]{2,}/)\<close>: the matched text of
  the leftmost match.
\<close>

fun matchEmail :: "string \<Rightarrow> string option" where
  "matchEmail [] = None"
| "matchEmail (c # cs) =
     (let loc = takeWhile isLocalChar (c # cs);
          r = dropWhile isLocalChar (c # cs)
      in if loc \<noteq> [] \<and> r \<noteq> [] \<and> hd r = CHR ''@'' then
           (case takeWhile isHostChar (tl r) of
              [] \<Rightarrow> matchEmail cs
            | d # ds \<Rightarrow>
                (case lastTld ds of
                   Some m \<Rightarrow> Some (loc @ ''@'' @ d # m)
                 | None \<Rightarrow> matchEmail cs))
         else matchEmail cs)"

definition extractEmailAddress :: "string \<Rightarrow> string option" where
  "extractEmailAddress from =
     (if from = [] then None
      else case matchAngle from of
             Some g \<Rightarrow> Some (trim g)
           | None \<Rightarrow> (case matchEmail from of Some m \<Rightarrow> Some (trim m) | None \<Rightarrow> None))"

text \<open>\<^verbatim>\<open>s.split(d)\<close> for a one-character separator.\<close>

fun splitOn :: "char \<Rightarrow> string \<Rightarrow> string list" where
  "splitOn d [] = [[]]"
| "splitOn d (c # cs) =
     (if c = d then [] # splitOn d cs
      else (case splitOn d cs of p # ps \<Rightarrow> (c # p) # ps | [] \<Rightarrow> [[c]]))"

text \<open>\<^verbatim>\<open>s.endsWith(w)\<close>\<close>

definition endsWith :: "string \<Rightarrow> string \<Rightarrow> bool" where
  "endsWith s w = startsWith (rev s) (rev w)"

text \<open>\<^verbatim>\<open>xs.slice(-n)\<close>\<close>

definition sliceLast :: "nat \<Rightarrow> 'a list \<Rightarrow> 'a list" where
  "sliceLast n xs = drop (length xs - n) xs"

definition IGNORED_PREFIXES :: "string list" where
  "IGNORED_PREFIXES =
     [''www'', ''noreply'', ''no-reply'', ''info'', ''support'', ''notifications'',
      ''accounts'', ''team'', ''hello'', ''mail'', ''updates'', ''announce'', ''auth'',
      ''auths'', ''app'']"

definition MULTIPART_SUFFIXES :: "string list" where
  "MULTIPART_SUFFIXES =
     [''co.uk'', ''com.au'', ''co.jp'', ''com.br'', ''com.gh'', ''com.ng'', ''co.za'']"

definition ALIAS_EXACT :: "(string \<times> string) list" where
  "ALIAS_EXACT =
     [(''facebookmail.com'', ''facebook.com''),
      (''amazonses.com'', ''amazon.com''),
      (''reply.github.com'', ''github.com''),
      (''githubmail.com'', ''github.com''),
      (''mail.twitter.com'', ''twitter.com''),
      (''e.uber.com'', ''uber.com''),
      (''mail.netflix.com'', ''netflix.com'')]"

definition ALIAS_SUFFIX :: "(string \<times> string) list" where
  "ALIAS_SUFFIX =
     [(''github.com'', ''github.com''),
      (''twitter.com'', ''twitter.com''),
      (''uber.com'', ''uber.com''),
      (''netflix.com'', ''netflix.com'')]"

text \<open>
  The loop of \<^verbatim>\<open>toBaseDomain\<close>:
  \<^verbatim>\<open>while (parts.length > 2 && IGNORED_PREFIXES.includes(parts[0])) parts = parts.slice(1)\<close>
\<close>

fun dropIgnoredPrefixes :: "string list \<Rightarrow> string list" where
  "dropIgnoredPrefixes [] = []"
| "dropIgnoredPrefixes (p # ps) =
     (if length (p # ps) > 2 \<and> p \<in> set IGNORED_PREFIXES then dropIgnoredPrefixes ps
      else p # ps)"

definition toBaseDomain :: "string \<Rightarrow> string" where
  "toBaseDomain host =
     (let parts = filterBoolean (splitOn CHR ''.'' (trim (toLowerCase host))) in
      if length parts \<le> 1 then host
      else
        let parts = dropIgnoredPrefixes parts in
        if length parts \<le> 2 then join ''.'' parts
        else
          let lastTwo = join ''.'' (sliceLast 2 parts);
              lastThree = join ''.'' (sliceLast 3 parts)
          in if lastTwo \<in> set MULTIPART_SUFFIXES \<and> length parts \<ge> 3 then lastThree
             else lastTwo)"

text \<open>\<^verbatim>\<open>host.replace(/\.+$/, "")\<close>\<close>

definition stripTrailingDots :: "string \<Rightarrow> string" where
  "stripTrailingDots host = rev (dropWhile (\<lambda>c. c = CHR ''.'') (rev host))"

text \<open>
  \<^verbatim>\<open>extractDomain(email: string | null)\<close>. The alias tables are plain objects read by
  key; the model reads them as association lists, which agrees with the source on every
  host that is not the name of a property every object inherits (such as
  \<^verbatim>\<open>constructor\<close>).
\<close>

definition extractDomain :: "string option \<Rightarrow> string option" where
  "extractDomain email =
     (case email of
        None \<Rightarrow> None
      | Some e \<Rightarrow>
          if e = [] then None
          else
            let raw = (case matchAngleLazy e of Some g \<Rightarrow> g | None \<Rightarrow> e);
                parts = splitOn CHR ''@'' raw
            in if length parts \<noteq> 2 then None
               else
                 let host = stripTrailingDots (trim (toLowerCase (parts ! 1))) in
                 if host = [] then None
                 else
                   (case map_of ALIAS_EXACT host of
                      Some canonical \<Rightarrow> Some canonical
                    | None \<Rightarrow>
                        let base = toBaseDomain host in
                        (case find (\<lambda>(suffix, canonical).
                                      base = suffix \<or> endsWith base (CHR ''.'' # suffix))
                                   ALIAS_SUFFIX of
                           Some (suffix, canonical) \<Rightarrow> Some canonical
                         | None \<Rightarrow> Some base)))"

section \<open>Errors thrown by the Gmail calls\<close>

text \<open>A parsed JSON value (a response body).\<close>

datatype json =
    JNull
  | JBool bool
  | JNum int
  | JStr string
  | JArr "json list"
  | JObj "(string \<times> json) list"

text \<open>
  A property read \<^verbatim>\<open>v?.k\<close>: \<open>None\<close> is \<^verbatim>\<open>undefined\<close>. None of the properties the
  sources read exists on a primitive or an array.
\<close>

fun getField :: "json \<Rightarrow> string \<Rightarrow> json option" where
  "getField (JObj kvs) k = map_of kvs k"
| "getField v k = None"

text \<open>
  An error object, with the properties the sources inspect: \<^verbatim>\<open>err.code\<close> and
  \<^verbatim>\<open>err.status\<close> when they are numbers, \<^verbatim>\<open>err.message\<close>, and \<^verbatim>\<open>err.error\<close>.
  \<^verbatim>\<open>new Error(m)\<close> is \<open>newError m\<close>.
\<close>

record jsError =
  e_code :: "nat option"
  e_status :: "nat option"
  e_message :: string
  e_error :: "json option"

definition newError :: "string \<Rightarrow> jsError" where
  "newError m = \<lparr>e_code = None, e_status = None, e_message = m, e_error = None\<rparr>"

text \<open>
  The two payload tests of \<^verbatim>\<open>isGmailAuthError\<close>:
  \<^verbatim>\<open>payload?.status === "UNAUTHENTICATED"\<close> and
  \<^verbatim>\<open>Array.isArray(payload?.errors) && payload.errors.some((e) => e.reason === "authError")\<close>.
  The entries of \<^verbatim>\<open>errors\<close> are taken to be non-null.
\<close>

definition payloadIsAuth :: "json \<Rightarrow> bool" where
  "payloadIsAuth payload =
     (getField payload ''status'' = Some (JStr ''UNAUTHENTICATED'') \<or>
      (case getField payload ''errors'' of
         Some (JArr es) \<Rightarrow> list_ex (\<lambda>e. getField e ''reason'' = Some (JStr ''authError'')) es
       | _ \<Rightarrow> False))"

text \<open>
  \<^verbatim>\<open>isGmailAuthError\<close> (the same function in worker.ts and in
  fetch-metadata-for-messages.ts). \<^verbatim>\<open>err?.error ?? err\<close> is the error object itself when
  \<^verbatim>\<open>err.error\<close> is absent or null; its own \<^verbatim>\<open>status\<close> is then a number or absent, and it
  has no \<^verbatim>\<open>errors\<close>, so neither payload test holds.
\<close>

definition isGmailAuthError :: "jsError \<Rightarrow> bool" where
  "isGmailAuthError err =
     (let code = (case e_code err of Some c \<Rightarrow> Some c | None \<Rightarrow> e_status err) in
      if code = Some 401 then True
      else if (case e_error err of
                 None \<Rightarrow> False
               | Some payload \<Rightarrow> payload \<noteq> JNull \<and> payloadIsAuth payload) then True
      else includesStr (e_message err) ''Invalid Credentials'' \<or>
           includesStr (e_message err) ''invalid_grant'')"

text \<open>The rate-limit test inside \<^verbatim>\<open>retryWithBackoff\<close> (fetch-metadata-for-messages.ts).\<close>

definition isRateLimitError :: "jsError \<Rightarrow> bool" where
  "isRateLimitError error =
     (e_code error = Some 429 \<or>
      e_status error = Some 429 \<or>
      (case e_error error of
         None \<Rightarrow> False
       | Some body \<Rightarrow> getField body ''status'' = Some (JStr ''RESOURCE_EXHAUSTED'')) \<or>
      (e_code error = Some 403 \<and> includesStr (e_message error) ''Quota''))"

section \<open>Retry with backoff and the metadata fetcher (fetch-metadata-for-messages.ts)\<close>

text \<open>What the retry loop does, in order: a call of \<^verbatim>\<open>fn\<close>, or a sleep of so many ms.\<close>

datatype retryEvent = Attempt nat | Sleep nat

text \<open>
  \<^verbatim>\<open>retryWithBackoff(fn, maxRetries = 5, baseDelay = 1000)\<close>. \<open>fn k\<close> is the outcome of
  the call of \<^verbatim>\<open>fn\<close> made in iteration \<open>k\<close> of the loop. The loop state is
  \<^verbatim>\<open>attempt\<close> and \<^verbatim>\<open>lastErr\<close>.
\<close>

function retryLoop ::
  "(nat \<Rightarrow> jsError + 'a) \<Rightarrow> nat \<Rightarrow> nat \<Rightarrow> nat \<Rightarrow> jsError option
     \<Rightarrow> retryEvent list \<times> (jsError + 'a)" where
  "retryLoop fn maxRetries baseDelay attempt lastErr =
     (if attempt < maxRetries then
        (case fn attempt of
           Inr v \<Rightarrow> ([Attempt attempt], Inr v)
         | Inl error \<Rightarrow>
             if isGmailAuthError error then ([Attempt attempt], Inl error)
             else if \<not> isRateLimitError error \<or> attempt = maxRetries - 1
             then ([Attempt attempt], Inl error)
             else
               (let delay = baseDelay * 2 ^ attempt;
                    (evs, r) = retryLoop fn maxRetries baseDelay (attempt + 1) (Some error)
                in (Attempt attempt # Sleep delay # evs, r)))
      else
        ([], Inl (case lastErr of Some e \<Rightarrow> e | None \<Rightarrow> newError ''Max retries exceeded'')))"
  by pat_completeness auto
termination
  by (relation "measure (\<lambda>(fn, maxRetries, baseDelay, attempt, lastErr). maxRetries - attempt)")
    auto

declare retryLoop.simps [simp del]

definition retryWithBackoff ::
  "(nat \<Rightarrow> jsError + 'a) \<Rightarrow> nat \<Rightarrow> nat \<Rightarrow> retryEvent list \<times> (jsError + 'a)" where
  "retryWithBackoff fn maxRetries baseDelay = retryLoop fn maxRetries baseDelay 0 None"

text \<open>
  The events of the iterations \<open>a\<close> to \<open>k - 1\<close> when each fails with a rate-limit error:
  the attempt, then a sleep of \<^verbatim>\<open>baseDelay * Math.pow(2, attempt)\<close> ms.
\<close>

definition backoffEvents :: "nat \<Rightarrow> nat \<Rightarrow> nat \<Rightarrow> retryEvent list" where
  "backoffEvents baseDelay a k =
     concat (map (\<lambda>j. [Attempt j, Sleep (baseDelay * 2 ^ j)]) [a..<k])"

record EmailMetadata =
  m_id :: string
  m_from :: string
  m_subject :: string
  m_date :: string
  m_internalDate :: "string option"

text \<open>
  \<^verbatim>\<open>GmailGetResponse\<close>: \<open>g_headers\<close> is \<^verbatim>\<open>payload?.headers ?? []\<close>, each header with its
  optional name and value.
\<close>

record GmailGetResponse =
  g_id :: "string option"
  g_internalDate :: "string option"
  g_headers :: "(string option \<times> string option) list"

text \<open>
  The answer to one GET of a message: a 2xx answer with its parsed body, or another status
  with its body. Bodies are JSON, as the API sends them.
\<close>

datatype response = HttpOk GmailGetResponse | HttpFail nat json

text \<open>
  What the fetcher does not decide itself:
  \<^item> the answers of the mail API: \<open>httpGet mid k\<close> answers the \<open>k\<close>-th request for message
    \<open>mid\<close>;
  \<^item> the runtime's \<^verbatim>\<open>new Date(Number(s)).toISOString()\<close>, \<open>None\<close> when it throws a
    RangeError;
  \<^item> the scheduling of the five workers: \<open>deal ids\<close> is the list of identifiers each worker
    pulls from the shared cursor over \<open>ids\<close>, the workers listed in the order in which they
    settle;
  \<^item> the order of completion: the workers push to one shared \<^verbatim>\<open>results\<close> array as their
    requests complete, and \<open>arrival\<close> gives that array from what each worker pushed;
  \<^item> the arithmetic of the runtime on doubles: \<open>percentOf p n\<close> is
    \<^verbatim>\<open>Math.round((p / n) * 100) || 0\<close>.
\<close>

record world =
  httpGet :: "string \<Rightarrow> nat \<Rightarrow> response"
  msToISO :: "string \<Rightarrow> string option"
  deal :: "string list \<Rightarrow> string list list"
  arrival :: "EmailMetadata list list \<Rightarrow> EmailMetadata list"
  percentOf :: "nat \<Rightarrow> nat \<Rightarrow> nat"

function showNat :: "nat \<Rightarrow> string" where
  "showNat n =
     (if n < 10 then [char_of (48 + n)] else showNat (n div 10) @ [char_of (48 + n mod 10)])"
  by pat_completeness auto
termination
  by (relation "measure (\<lambda>n. n)") auto

declare showNat.simps [simp del]

text \<open>The function passed to \<^verbatim>\<open>retryWithBackoff\<close> by the worker, for message \<open>mid\<close>.\<close>

definition metadataRequest :: "world \<Rightarrow> string \<Rightarrow> nat \<Rightarrow> jsError + GmailGetResponse" where
  "metadataRequest w mid k =
     (case httpGet w mid k of
        HttpOk d \<Rightarrow> Inr d
      | HttpFail status body \<Rightarrow>
          Inl \<lparr>e_code = Some status, e_status = None,
               e_message = ''Gmail metadata error for message '' @ mid @ '': '' @ showNat status,
               e_error = Some body\<rparr>)"

text \<open>\<^verbatim>\<open>headers.find((h) => h.name === name)?.value?.toString() ?? ""\<close>\<close>

definition headerValue :: "string \<Rightarrow> (string option \<times> string option) list \<Rightarrow> string" where
  "headerValue name hs =
     (case find (\<lambda>h. fst h = Some name) hs of
        Some (n, Some v) \<Rightarrow> v
      | _ \<Rightarrow> [])"

text \<open>
  The record pushed to \<^verbatim>\<open>results\<close>; \<open>None\<close> when building it throws (an
  \<^verbatim>\<open>internalDate\<close> that is not a date).
\<close>

definition toMetadata :: "world \<Rightarrow> string \<Rightarrow> GmailGetResponse \<Rightarrow> EmailMetadata option" where
  "toMetadata w mid d =
     (let base = \<lparr>m_id = (case g_id d of Some i \<Rightarrow> i | None \<Rightarrow> mid),
                  m_from = headerValue ''From'' (g_headers d),
                  m_subject = headerValue ''Subject'' (g_headers d),
                  m_date = headerValue ''Date'' (g_headers d),
                  m_internalDate = None\<rparr>
      in case g_internalDate d of
           None \<Rightarrow> Some base
         | Some s \<Rightarrow>
             if s = [] then Some base
             else (case msToISO w s of
                     None \<Rightarrow> None
                   | Some isoStr \<Rightarrow> Some (base\<lparr>m_internalDate := Some isoStr\<rparr>)))"

text \<open>
  One worker of \<^verbatim>\<open>getEmailMetadataBatch\<close>, on the identifiers it pulls. An auth error is
  thrown again; any other failure is logged and the loop goes on. The result is what this
  worker pushed to \<^verbatim>\<open>results\<close>.
\<close>

fun worker :: "world \<Rightarrow> string list \<Rightarrow> jsError + EmailMetadata list" where
  "worker w [] = Inr []"
| "worker w (mid # ids) =
     (case snd (retryWithBackoff (metadataRequest w mid) 5 1000) of
        Inl err \<Rightarrow> if isGmailAuthError err then Inl err else worker w ids
      | Inr d \<Rightarrow>
          (case toMetadata w mid d of
             None \<Rightarrow> worker w ids
           | Some m \<Rightarrow>
               (case worker w ids of Inl err \<Rightarrow> Inl err | Inr ms \<Rightarrow> Inr (m # ms))))"

text \<open>
  \<^verbatim>\<open>Promise.all\<close>: rejects with the first rejection, otherwise resolves with all the
  values. The promises are listed in the order in which they settle.
\<close>

fun promiseAll :: "('e + 'a) list \<Rightarrow> 'e + 'a list" where
  "promiseAll [] = Inr []"
| "promiseAll (r # rs) =
     (case r of
        Inl e \<Rightarrow> Inl e
      | Inr v \<Rightarrow> (case promiseAll rs of Inl e \<Rightarrow> Inl e | Inr vs \<Rightarrow> Inr (v # vs)))"

definition getEmailMetadataBatch :: "world \<Rightarrow> string list \<Rightarrow> jsError + EmailMetadata list" where
  "getEmailMetadataBatch w messageIds =
     (if messageIds = [] then Inr []
      else case promiseAll (map (worker w) (deal w messageIds)) of
             Inl e \<Rightarrow> Inl e
           | Inr rss \<Rightarrow> Inr (arrival w rss))"

text \<open>
  The shared cursor hands every identifier of a batch to some worker (to one that, if it
  has not thrown before, requests it).
\<close>

definition dealsAll :: "world \<Rightarrow> bool" where
  "dealsAll w = (\<forall>ids. set ids \<subseteq> set (concat (deal w ids)))"

text \<open>
  The body the mail API sends with a 403 when a quota is exceeded: the details are under
  \<^verbatim>\<open>error\<close>.
\<close>

definition quotaExceededBody :: json where
  "quotaExceededBody =
     JObj [(''error'',
            JObj [(''code'', JNum 403),
                  (''message'', JStr ''Quota exceeded for quota metric Queries''),
                  (''errors'', JArr [JObj [(''domain'', JStr ''usageLimits''),
                                           (''reason'', JStr ''rateLimitExceeded'')]]),
                  (''status'', JStr ''RESOURCE_EXHAUSTED'')])]"

record GmailMessage =
  gm_id :: "string option"
  gm_threadId :: "string option"

text \<open>
  The batch loop of \<^verbatim>\<open>fetchMetadataForMessages\<close>: \<open>ids\<close> is what is left of
  \<^verbatim>\<open>messageIds\<close> from index \<open>i\<close> on, \<open>results\<close> the metadata so far. The first component
  of the result lists the percentages reported through \<^verbatim>\<open>onProgress\<close>.
\<close>

function batchLoop ::
  "world \<Rightarrow> nat \<Rightarrow> string list \<Rightarrow> EmailMetadata list
     \<Rightarrow> nat list \<times> (jsError + EmailMetadata list)" where
  "batchLoop w totalMessages ids results =
     (if ids = [] then ([], Inr results)
      else
        (case getEmailMetadataBatch w (take 200 ids) of
           Inl err \<Rightarrow>
             if isGmailAuthError err then ([], Inl err)
             else
               (let (ps, r) = batchLoop w totalMessages (drop 200 ids) results
                in (percentOf w (length results) totalMessages # ps, r))
         | Inr batchResults \<Rightarrow>
             (let results' = results @ batchResults;
                  (ps, r) = batchLoop w totalMessages (drop 200 ids) results'
              in (percentOf w (length results') totalMessages # ps, r))))"
  by pat_completeness auto
termination
  by (relation "measure (\<lambda>(w, totalMessages, ids, results). length ids)") auto

declare batchLoop.simps [simp del]

definition messageIdsOf :: "GmailMessage list \<Rightarrow> string list" where
  "messageIdsOf messages =
     filterBoolean (concat (map (\<lambda>m. case gm_id m of None \<Rightarrow> [] | Some i \<Rightarrow> [i]) messages))"

definition fetchMetadataForMessages ::
  "world \<Rightarrow> GmailMessage list \<Rightarrow> nat list \<times> (jsError + EmailMetadata list)" where
  "fetchMetadataForMessages w messages =
     (if messages = [] then ([], Inr [])
      else let messageIds = messageIdsOf messages
           in batchLoop w (length messageIds) messageIds [])"

section \<open>Effects on the outside world\<close>

text \<open>
  The worker writes to the durable store and calls other services. Each such write or
  call is an effect; a run of a function is the list of the effects it performs, in order,
  with its result: a value, or the error it throws. What the outside world answers is
  given to each function as a parameter.
\<close>

text \<open>An error object returned by the store client: \<^verbatim>\<open>{ code, message }\<close>.\<close>

record dbError =
  db_code :: string
  db_message :: string

text \<open>
  A store error that is thrown is an error object whose \<^verbatim>\<open>code\<close> is a string, never a
  number.
\<close>

definition thrownDbError :: "dbError \<Rightarrow> jsError" where
  "thrownDbError e = newError (db_message e)"

datatype notifType = SweepCompleted | SweepFailed

text \<open>A row of \<^verbatim>\<open>user_services\<close>, as \<^verbatim>\<open>saveSweepData\<close> builds it.\<close>

record userService =
  us_user_id :: string
  us_service_id :: "string option"
  us_email_count :: nat
  us_first_seen_at :: "string option"
  us_last_seen_at :: "string option"
  us_confidence_score :: nat

record breach =
  br_name :: string
  br_breachDate :: string
  br_dataClasses :: "string list"
  br_description :: string

datatype effect =
    Notify string notifType "nat option" "nat option"
      \<comment> \<open>insert into \<^verbatim>\<open>user_notifications\<close>: user, type, and the \<^verbatim>\<open>services_found\<close> and
          \<^verbatim>\<open>breaches_found\<close> of its metadata\<close>
  | SendEmail "string option" string "nat option"
      \<comment> \<open>recipient, template id, and the \<^verbatim>\<open>total_accounts\<close> variable\<close>
  | SetProcessing string
      \<comment> \<open>update of the \<^verbatim>\<open>sweep_events\<close> row: \<^verbatim>\<open>status: 'processing'\<close>\<close>
  | SetProgress string nat
  | SetCompleted string nat nat
      \<comment> \<open>\<^verbatim>\<open>status: 'completed'\<close> with \<^verbatim>\<open>services_found\<close> and \<^verbatim>\<open>breaches_found\<close>\<close>
  | SetFailed string
      \<comment> \<open>\<^verbatim>\<open>status: 'failed'\<close>\<close>
  | RefreshAccessToken string
      \<comment> \<open>the call of the OAuth token endpoint with a refresh token\<close>
  | UpdateGmailAccount string string int "dbError option"
      \<comment> \<open>update of the \<^verbatim>\<open>gmail_accounts\<close> row of a user: encrypted access token and
          expiry (ms); the last field is what the store answers (an error, or none)\<close>
  | ListEmails string string "int option"
      \<comment> \<open>\<^verbatim>\<open>listEmails(accessToken, plan, lastScanDate)\<close>\<close>
  | FetchMetadata string "string list"
      \<comment> \<open>\<^verbatim>\<open>fetchMetadataForMessages\<close> with an access token, on these message ids\<close>
  | InsertService string string
      \<comment> \<open>insert into \<^verbatim>\<open>services\<close>: domain and \<^verbatim>\<open>default_privacy_email\<close>\<close>
  | DeleteUserServices string
  | UpsertUserServices "userService list"
  | UpsertUserBreaches string "breach list"
  | InsertSweepMetrics string nat nat bool
      \<comment> \<open>user, \<^verbatim>\<open>accounts_found\<close>, \<^verbatim>\<open>breaches_found\<close>, \<^verbatim>\<open>is_incremental\<close>\<close>
  | UpdateLastSweepAt string

type_synonym 'a proc = "effect list \<times> (jsError + 'a)"

definition ret :: "'a \<Rightarrow> 'a proc" where
  "ret x = ([], Inr x)"

definition throw :: "jsError \<Rightarrow> 'a proc" where
  "throw e = ([], Inl e)"

definition emit :: "effect \<Rightarrow> unit proc" where
  "emit ev = ([ev], Inr ())"

text \<open>Sequencing: the second step runs only when the first returns.\<close>

definition andThen :: "'a proc \<Rightarrow> ('a \<Rightarrow> 'b proc) \<Rightarrow> 'b proc" where
  "andThen m f =
     (case m of
        (t, Inl e) \<Rightarrow> (t, Inl e)
      | (t, Inr x) \<Rightarrow> (case f x of (t', r) \<Rightarrow> (t @ t', r)))"

text \<open>\<^verbatim>\<open>try { m } catch (err) { h(err) }\<close>\<close>

definition tryCatch :: "'a proc \<Rightarrow> (jsError \<Rightarrow> 'a proc) \<Rightarrow> 'a proc" where
  "tryCatch m h =
     (case m of
        (t, Inl e) \<Rightarrow> (case h e of (t', r) \<Rightarrow> (t @ t', r))
      | (t, Inr x) \<Rightarrow> (t, Inr x))"

text \<open>A value or a thrown error, with no effect.\<close>

definition lift :: "jsError + 'a \<Rightarrow> 'a proc" where
  "lift r = ([], r)"

section \<open>Grouping by domain (summarize-by-domain.ts)\<close>

datatype contactConfidence = High | Medium | Low

record DomainAggregate =
  da_domain :: string
  da_emailCount :: nat
  da_firstSeenAt :: "string option"
  da_lastSeenAt :: "string option"
  da_serviceId :: "string option"
  da_subject :: string
  da_subjects :: "string list"
  da_supportEmail :: "string option"
  da_privacyEmail :: "string option"
  da_contactConfidence :: contactConfidence

text \<open>The value type of the grouping map.\<close>

record domainGroup =
  dg_emailCount :: nat
  dg_firstSeenAt :: "string option"
  dg_lastSeenAt :: "string option"
  dg_subject :: string
  dg_subjects :: "string list"
  dg_fromAddresses :: "string list"

text \<open>
  What the store answers to the two queries on \<^verbatim>\<open>services\<close>, by domain, and the
  runtime's \<^verbatim>\<open>new Date(s).toISOString()\<close> (\<open>None\<close> when it throws a RangeError).
\<close>

record serviceStore =
  selectService :: "string \<Rightarrow> string option \<times> dbError option"
  insertService :: "string \<Rightarrow> string option \<times> dbError option"
  dateToISO :: "string \<Rightarrow> string option"

definition supportWords :: "string list" where
  "supportWords = [''support'', ''help'', ''contact'', ''service'', ''customer'']"

text \<open>\<^verbatim>\<open>/data.?protection/\<close> at the head of a string, and anywhere in it.\<close>

definition dataProtectionHere :: "string \<Rightarrow> bool" where
  "dataProtectionHere s =
     (startsWith s ''data'' \<and>
      (let r = drop 4 s in
       startsWith r ''protection'' \<or>
       (case r of [] \<Rightarrow> False | x # r' \<Rightarrow> \<not> isLineTerminator x \<and> startsWith r' ''protection'')))"

fun testDataProtection :: "string \<Rightarrow> bool" where
  "testDataProtection [] = False"
| "testDataProtection (c # cs) = (dataProtectionHere (c # cs) \<or> testDataProtection cs)"

text \<open>\<^verbatim>\<open>/support|help|contact|service|customer/i.test(e)\<close> on a lower-cased address.\<close>

definition isSupportLike :: "string \<Rightarrow> bool" where
  "isSupportLike e = testAny supportWords e"

text \<open>\<^verbatim>\<open>/privacy|dpo|data.?protection/i.test(e)\<close> on a lower-cased address.\<close>

definition isPrivacyLike :: "string \<Rightarrow> bool" where
  "isPrivacyLike e = (testAny [''privacy'', ''dpo''] e \<or> testDataProtection e)"

text \<open>
  The addresses \<^verbatim>\<open>extractContactEmails\<close> searches:
  \<^verbatim>\<open>fromAddresses.map((addr) => extractEmailAddress(addr)?.toLowerCase()).filter((e) => !!e)\<close>
\<close>

definition contactCandidates :: "string list \<Rightarrow> string list" where
  "contactCandidates fromAddresses =
     filterBoolean
       (concat (map (\<lambda>addr. case extractEmailAddress addr of
                               None \<Rightarrow> []
                             | Some e \<Rightarrow> [toLowerCase e]) fromAddresses))"

definition extractContactEmails :: "string list \<Rightarrow> string option \<times> string option" where
  "extractContactEmails fromAddresses =
     (let emails = contactCandidates fromAddresses
      in (find isSupportLike emails, find isPrivacyLike emails))"

definition generateContactEmails :: "string \<Rightarrow> string \<times> string" where
  "generateContactEmails domain = (''support@'' @ domain, ''privacy@'' @ domain)"

text \<open>
  \<^verbatim>\<open>meta.internalDate || (meta.date ? new Date(meta.date).toISOString() : null)\<close>
\<close>

definition isoOf :: "serviceStore \<Rightarrow> EmailMetadata \<Rightarrow> jsError + string option" where
  "isoOf st meta =
     (if m_internalDate meta \<noteq> None \<and> m_internalDate meta \<noteq> Some []
      then Inr (m_internalDate meta)
      else if m_date meta = [] then Inr None
      else (case dateToISO st (m_date meta) of
              None \<Rightarrow> Inl (newError ''Invalid time value'')
            | Some s \<Rightarrow> Inr (Some s)))"

text \<open>A string or null is truthy when it is a non-empty string.\<close>

definition truthy :: "string option \<Rightarrow> bool" where
  "truthy x = (x \<noteq> None \<and> x \<noteq> Some [])"

text \<open>The updates of one group for one message, after the group exists.\<close>

definition addToGroup :: "domainGroup \<Rightarrow> EmailMetadata \<Rightarrow> string option \<Rightarrow> domainGroup" where
  "addToGroup agg meta isoStr =
     (let agg1 = agg\<lparr>dg_emailCount := dg_emailCount agg + 1\<rparr>;
          agg2 = (if m_subject meta \<noteq> []
                  then agg1\<lparr>dg_subjects := dg_subjects agg1 @ [m_subject meta]\<rparr> else agg1);
          agg3 = (if m_from meta \<noteq> []
                  then agg2\<lparr>dg_fromAddresses := dg_fromAddresses agg2 @ [m_from meta]\<rparr>
                  else agg2)
      in if truthy isoStr then
           (let agg4 = (if \<not> truthy (dg_firstSeenAt agg3) \<or> the isoStr < the (dg_firstSeenAt agg3)
                        then agg3\<lparr>dg_firstSeenAt := isoStr\<rparr> else agg3)
            in if \<not> truthy (dg_lastSeenAt agg4) \<or> the isoStr > the (dg_lastSeenAt agg4)
               then agg4\<lparr>dg_lastSeenAt := isoStr\<rparr> else agg4)
         else agg3)"

text \<open>
  The first pass. The map keeps its keys in insertion order, so it is an association
  list; a new domain goes to its end.
\<close>

fun groupLoop ::
  "serviceStore \<Rightarrow> EmailMetadata list \<Rightarrow> (string \<times> domainGroup) list
     \<Rightarrow> jsError + (string \<times> domainGroup) list" where
  "groupLoop st [] mp = Inr mp"
| "groupLoop st (meta # rest) mp =
     (case extractDomain (extractEmailAddress (m_from meta)) of
        None \<Rightarrow> groupLoop st rest mp
      | Some domain \<Rightarrow>
          if domain = [] then groupLoop st rest mp
          else
            (case isoOf st meta of
               Inl e \<Rightarrow> Inl e
             | Inr isoStr \<Rightarrow>
                 (let mp1 = (if map_of mp domain = None
                             then mp @ [(domain,
                                         \<lparr>dg_emailCount = 0, dg_firstSeenAt = isoStr,
                                          dg_lastSeenAt = isoStr,
                                          dg_subject = m_subject meta, dg_subjects = [],
                                          dg_fromAddresses = []\<rparr>)]
                             else mp);
                      mp2 = map (\<lambda>(k, agg). if k = domain then (k, addToGroup agg meta isoStr)
                                             else (k, agg)) mp1
                  in groupLoop st rest mp2)))"

text \<open>\<^verbatim>\<open>a || b\<close> on an optional string and a string.\<close>

definition orElse :: "string option \<Rightarrow> string \<Rightarrow> string" where
  "orElse a b = (if truthy a then the a else b)"

text \<open>
  The look-up or creation of the service of one domain (the body of the \<^verbatim>\<open>else\<close> of the
  cache test). Of the inserted row the model keeps the domain and the contact address;
  name, category and logo come from helpers that decide nothing here.
\<close>

definition resolveService ::
  "serviceStore \<Rightarrow> string \<Rightarrow> domainGroup \<Rightarrow> string option proc" where
  "resolveService st domain d =
     (let (service, servicesError) = selectService st domain in
      if (servicesError \<noteq> None \<and> db_code (the servicesError) = ''PGRST116'') \<or> service = None
      then
        (let (exSupport, exPrivacy) = extractContactEmails (dg_fromAddresses d);
             (genSupport, genPrivacy) = generateContactEmails domain;
             supportEmail = orElse exSupport genSupport;
             privacyEmail = orElse exPrivacy genPrivacy;
             (newService, createError) = insertService st domain
         in andThen (emit (InsertService domain (orElse (Some privacyEmail) supportEmail)))
              (\<lambda>u. if createError \<noteq> None \<or> newService = None
                    then throw (case createError of
                                  Some e \<Rightarrow> thrownDbError e
                                | None \<Rightarrow> newError [])
                    else ret newService))
      else if servicesError \<noteq> None then throw (thrownDbError (the servicesError))
      else ret service)"

text \<open>The aggregate pushed to \<^verbatim>\<open>results\<close> for one domain.\<close>

definition toAggregate :: "string \<Rightarrow> domainGroup \<Rightarrow> string option \<Rightarrow> DomainAggregate" where
  "toAggregate domain d serviceId =
     (let (exSupport, exPrivacy) = extractContactEmails (dg_fromAddresses d);
          (genSupport, genPrivacy) = generateContactEmails domain;
          hit = (truthy exSupport \<or> truthy exPrivacy)
      in \<lparr>da_domain = domain,
          da_emailCount = dg_emailCount d,
          da_firstSeenAt = dg_firstSeenAt d,
          da_lastSeenAt = dg_lastSeenAt d,
          da_serviceId = serviceId,
          da_subject = dg_subject d,
          da_subjects = dg_subjects d,
          da_supportEmail = (if hit then (if truthy exSupport then exSupport else None)
                             else Some genSupport),
          da_privacyEmail = (if hit then (if truthy exPrivacy then exPrivacy else None)
                             else Some genPrivacy),
          da_contactConfidence = (if hit then High else Low)\<rparr>)"

text \<open>
  The second pass, over the entries of the map, with the \<^verbatim>\<open>serviceIds\<close> cache.
\<close>

fun resolveLoop ::
  "serviceStore \<Rightarrow> (string \<times> domainGroup) list \<Rightarrow> (string \<times> string) list
     \<Rightarrow> DomainAggregate list proc" where
  "resolveLoop st [] serviceIds = ret []"
| "resolveLoop st ((domain, d) # rest) serviceIds =
     andThen
       (case map_of serviceIds domain of
          Some sid \<Rightarrow> ret (Some sid, serviceIds)
        | None \<Rightarrow>
            andThen (resolveService st domain d)
              (\<lambda>serviceId. ret (serviceId,
                                if truthy serviceId then serviceIds @ [(domain, the serviceId)]
                                else serviceIds)))
       (\<lambda>(serviceId, serviceIds').
          andThen (resolveLoop st rest serviceIds')
            (\<lambda>results. ret (toAggregate domain d serviceId # results)))"

definition summarizeByDomain :: "serviceStore \<Rightarrow> EmailMetadata list \<Rightarrow> DomainAggregate list proc" where
  "summarizeByDomain st metadataList =
     andThen (lift (groupLoop st metadataList []))
       (\<lambda>mp. resolveLoop st mp [])"




section \<open>Incremental scan window (cache.ts)\<close>

datatype sweepStatus = Pending | Processing | Completed | Failed

text \<open>A row of \<^verbatim>\<open>sweep_events\<close>; instants are milliseconds since the epoch.\<close>

record sweepEvent =
  se_id :: string
  se_user_id :: string
  se_status :: sweepStatus
  se_started_at :: "int option"
  se_completed_at :: "int option"

text \<open>
  \<open>a\<close> sorts before \<open>b\<close> under \<^verbatim>\<open>order("started_at", { ascending: false })\<close>: later
  instants first, and rows without one before all others, as the store orders nulls in a
  descending order.
\<close>

definition startsLater :: "sweepEvent \<Rightarrow> sweepEvent \<Rightarrow> bool" where
  "startsLater a b =
     (case (se_started_at a, se_started_at b) of
        (None, None) \<Rightarrow> False
      | (None, Some y) \<Rightarrow> True
      | (Some x, None) \<Rightarrow> False
      | (Some x, Some y) \<Rightarrow> x > y)"

fun firstByStart :: "sweepEvent list \<Rightarrow> sweepEvent option" where
  "firstByStart [] = None"
| "firstByStart (r # rs) =
     (case firstByStart rs of
        None \<Rightarrow> Some r
      | Some b \<Rightarrow> if startsLater b r then Some b else Some r)"

text \<open>
  The query of \<^verbatim>\<open>getIncrementalScanDate\<close>: the completed sweeps of the user, ordered by
  \<^verbatim>\<open>started_at\<close> descending, limit 1.
\<close>

definition latestCompleted :: "sweepEvent list \<Rightarrow> string \<Rightarrow> sweepEvent option" where
  "latestCompleted tbl userId =
     firstByStart (filter (\<lambda>r. se_user_id r = userId \<and> se_status r = Completed) tbl)"

text \<open>
  What the store answers to that query: the row, or null when there is none; on an error
  the data is null too, and the source does not read the error. \<open>answer\<close> is the table
  the query runs on, or the error of the query.
\<close>

definition completedSweepQuery :: "dbError + sweepEvent list \<Rightarrow> string \<Rightarrow> sweepEvent option" where
  "completedSweepQuery answer userId =
     (case answer of
        Inl queryError \<Rightarrow> None
      | Inr tbl \<Rightarrow> latestCompleted tbl userId)"

text \<open>
  \<^verbatim>\<open>getIncrementalScanDate(supabase, userId, maxHoursOld)\<close> at the instant \<open>now\<close>.
\<close>

definition getIncrementalScanDate ::
  "dbError + sweepEvent list \<Rightarrow> string \<Rightarrow> nat \<Rightarrow> int \<Rightarrow> int option" where
  "getIncrementalScanDate answer userId maxHoursOld now =
     (case completedSweepQuery answer userId of
        None \<Rightarrow> None
      | Some sweep \<Rightarrow>
          (case se_started_at sweep of
             None \<Rightarrow> None
           | Some scanDate \<Rightarrow>
               let hoursSinceScan = (real_of_int (now - scanDate) / (1000 * 60 * 60) :: real)
               in if hoursSinceScan > real maxHoursOld then None else Some scanDate))"

text \<open>
  The date filter \<^verbatim>\<open>listEmails\<close> puts in its queries: messages after the given instant
  (in seconds), or the look-back window of the plan.
\<close>

datatype dateFilter = After int | NewerThanYears nat

definition dateFilterOf :: "string \<Rightarrow> int option \<Rightarrow> dateFilter" where
  "dateFilterOf current_plan lastScanDate =
     (case lastScanDate of
        Some d \<Rightarrow> After (d div 1000)
      | None \<Rightarrow> NewerThanYears (if current_plan = ''pro'' then 15 else 10))"

section \<open>Token lifecycle (worker.ts)\<close>

record gmailAccount =
  ga_user_id :: string
  ga_gmail_address :: string
  ga_access_token_encrypted :: string
  ga_refresh_token_encrypted :: "string option"
  ga_token_expires_at :: "int option"

text \<open>
  What the token functions get from outside: the vault under the key of the process
  (either call may throw), the OAuth endpoint's answer to a refresh token (the new access
  token and its time to live in seconds, or the error \<^verbatim>\<open>refreshAccessToken\<close> throws), the
  answer of the store to the update of the credential record, and the clock.
\<close>

record tokenEnv =
  te_decrypt :: "string \<Rightarrow> jsError + string"
  te_encrypt :: "string \<Rightarrow> jsError + string"
  te_refresh :: "string \<Rightarrow> jsError + string \<times> int"
  te_updateAnswer :: "dbError option"
  te_now :: int

text \<open>
  \<^verbatim>\<open>gmailAccount.refresh_token_encrypted ? decryptToken(...) : null\<close>
\<close>

definition decryptRefreshToken :: "tokenEnv \<Rightarrow> gmailAccount \<Rightarrow> jsError + string option" where
  "decryptRefreshToken te acct =
     (if truthy (ga_refresh_token_encrypted acct)
      then (case te_decrypt te (the (ga_refresh_token_encrypted acct)) of
              Inl e \<Rightarrow> Inl e
            | Inr t \<Rightarrow> Inr (Some t))
      else Inr None)"

text \<open>
  The refresh both functions perform: the call of the OAuth endpoint, then the update of
  the credential record, awaited. Neither function reads what the store answers to the
  update. The result is the new access token.
\<close>

definition refreshAndPersist :: "tokenEnv \<Rightarrow> gmailAccount \<Rightarrow> string \<Rightarrow> string proc" where
  "refreshAndPersist te acct refreshToken =
     andThen (emit (RefreshAccessToken refreshToken))
       (\<lambda>u. andThen (lift (te_refresh te refreshToken))
         (\<lambda>(access_token, expires_in).
            andThen (lift (te_encrypt te access_token))
              (\<lambda>enc. andThen
                 (emit (UpdateGmailAccount (ga_user_id acct) enc
                          (te_now te + expires_in * 1000) (te_updateAnswer te)))
                 (\<lambda>u. ret access_token))))"

definition ensureValidAccessToken :: "tokenEnv \<Rightarrow> gmailAccount \<Rightarrow> string proc" where
  "ensureValidAccessToken te acct =
     andThen (lift (te_decrypt te (ga_access_token_encrypted acct)))
       (\<lambda>accessToken. andThen (lift (decryptRefreshToken te acct))
          (\<lambda>refreshToken.
             let nowSec = te_now te div 1000;
                 tokenExpirySec = (case ga_token_expires_at acct of
                                     None \<Rightarrow> None
                                   | Some t \<Rightarrow> Some (t div 1000))
             in if tokenExpirySec \<noteq> None \<and> tokenExpirySec \<noteq> Some 0 \<and>
                   the tokenExpirySec < nowSec \<and> truthy refreshToken
                then refreshAndPersist te acct (the refreshToken)
                else ret accessToken))"

definition withTokenRefresh ::
  "tokenEnv \<Rightarrow> gmailAccount \<Rightarrow> (string \<Rightarrow> 'a proc) \<Rightarrow> 'a proc" where
  "withTokenRefresh te acct fn =
     andThen (ensureValidAccessToken te acct)
       (\<lambda>accessToken.
          tryCatch (fn accessToken)
            (\<lambda>err.
               if \<not> isGmailAuthError err then throw err
               else
                 andThen (lift (decryptRefreshToken te acct))
                   (\<lambda>refreshToken.
                      if \<not> truthy refreshToken then throw err
                      else andThen (refreshAndPersist te acct (the refreshToken))
                             (\<lambda>access_token. fn access_token))))"

section \<open>Spam filter (helpers.ts)\<close>

definition spamPatterns :: "string list" where
  "spamPatterns =
     [''unsubscribe'', ''newsletter'', ''daily digest'', ''weekly summary'', ''promotional'',
      ''limited time offer'', ''act now'', ''click here'']"

definition spamDomains :: "string list" where
  "spamDomains = [''mailchimp'', ''sendgrid'', ''constantcontact'']"

text \<open>
  \<^verbatim>\<open>isLikelySpam\<close>: the patterns are case-insensitive and run on the lower-cased subjects.
\<close>

definition isLikelySpam :: "Summary \<Rightarrow> bool" where
  "isLikelySpam summary =
     (let domain = toLowerCase (orEmpty (s_domain summary));
          subs = allSubjects summary;
          hasSpamPattern = testAny spamPatterns subs;
          hasSpamDomain = list_ex (\<lambda>d. includesStr domain d) spamDomains
      in hasSpamPattern \<or> hasSpamDomain)"

section \<open>The sweep (worker.ts)\<close>

text \<open>A domain aggregate read through the \<^verbatim>\<open>Summary\<close> interface: it has no \<^verbatim>\<open>from\<close>.\<close>

definition asSummary :: "DomainAggregate \<Rightarrow> Summary" where
  "asSummary a =
     \<lparr>s_domain = Some (da_domain a), s_subject = Some (da_subject a),
      s_subjects = Some (da_subjects a), s_from = None,
      s_emailCount = Some (int (da_emailCount a))\<rparr>"

text \<open>
  An enriched summary: the aggregate with its \<^verbatim>\<open>confidence\<close>. The two other added
  fields, \<^verbatim>\<open>normalizedName\<close> and \<^verbatim>\<open>category\<close>, are read by nothing after they are set
  and are left out.
\<close>

record enriched =
  en_summary :: DomainAggregate
  en_confidence :: nat

definition enrich :: "DomainAggregate \<Rightarrow> enriched" where
  "enrich a = \<lparr>en_summary = a, en_confidence = calculateConfidenceScore (asSummary a)\<rparr>"

text \<open>
  \<^verbatim>\<open>filteredSummaries\<close> after \<^verbatim>\<open>filteredSummaries.sort((a, b) => b.confidence - a.confidence)\<close>:
  the sort of the runtime is stable, as \<^const>\<open>sort_key\<close> is.
\<close>

definition filteredSummaries :: "DomainAggregate list \<Rightarrow> enriched list" where
  "filteredSummaries domainSummaries =
     sort_key (\<lambda>e. - int (en_confidence e))
       (filter (\<lambda>e. \<not> isLikelySpam (asSummary (en_summary e))) (map enrich domainSummaries))"

text \<open>
  \<^verbatim>\<open>isFreePlan ? filteredSummaries.slice(0, 50) : filteredSummaries\<close> with
  \<^verbatim>\<open>isFreePlan = currentPlan !== 'pro'\<close>
\<close>

definition accountsToSave :: "string \<Rightarrow> enriched list \<Rightarrow> enriched list" where
  "accountsToSave currentPlan filtered =
     (if currentPlan \<noteq> ''pro'' then take 50 filtered else filtered)"

definition toUserService :: "string \<Rightarrow> enriched \<Rightarrow> userService" where
  "toUserService userId e =
     \<lparr>us_user_id = userId,
      us_service_id = da_serviceId (en_summary e),
      us_email_count = da_emailCount (en_summary e),
      us_first_seen_at = da_firstSeenAt (en_summary e),
      us_last_seen_at = da_lastSeenAt (en_summary e),
      us_confidence_score = en_confidence e\<rparr>"

record user =
  u_email :: "string option"

text \<open>
  What a sweep gets from outside. The store and the other services answer the calls; each
  answer that the source reads is a field here:
  \<^item> \<open>getUserEmail\<close>: the user, or null when the look-up fails;
  \<^item> \<open>notifyAnswer\<close>: the error of the insert into \<^verbatim>\<open>user_notifications\<close>, if any;
  \<^item> \<open>sendEmailAnswer\<close>: the error \<^verbatim>\<open>sendEmail\<close> throws for a template, if any;
  \<^item> \<open>currentPlanOf\<close>: \<^verbatim>\<open>subscriptionData?.current_plan\<close>;
  \<^item> \<open>gmailAccountOf\<close>: the row of \<^verbatim>\<open>gmail_accounts\<close> and the error of that query;
  \<^item> \<open>sweepEvents\<close>: the rows of \<^verbatim>\<open>sweep_events\<close>, or the error of the query on them, and
    \<open>nowAtScanCheck\<close> the clock when \<^verbatim>\<open>getIncrementalScanDate\<close> reads it;
  \<^item> \<open>listEnv\<close>, \<open>fetchEnv\<close>: the token environment of the two wrapped Gmail operations;
  \<^item> \<open>listEmailsAnswer\<close>: what \<^verbatim>\<open>listEmails\<close> returns or throws for an access token, a
    plan and a since-instant;
  \<^item> \<open>fetchWorld\<close>: the world of the metadata fetcher under an access token;
  \<^item> \<open>services\<close>: the store of \<^verbatim>\<open>summarizeByDomain\<close>;
  \<^item> \<open>getBreachesAnswer\<close>: what \<^verbatim>\<open>getBreaches\<close> returns or throws for a mailbox address;
  \<^item> \<open>upsertAnswer\<close>: the error of the upsert into \<^verbatim>\<open>user_services\<close>, if any.
\<close>

record sweepEnv =
  getUserEmail :: "string \<Rightarrow> user option"
  notifyAnswer :: "notifType \<Rightarrow> dbError option"
  sendEmailAnswer :: "string \<Rightarrow> jsError option"
  currentPlanOf :: "string \<Rightarrow> string option"
  gmailAccountOf :: "string \<Rightarrow> gmailAccount option \<times> dbError option"
  sweepEvents :: "dbError + sweepEvent list"
  nowAtScanCheck :: int
  listEnv :: tokenEnv
  fetchEnv :: tokenEnv
  listEmailsAnswer :: "string \<Rightarrow> string \<Rightarrow> int option \<Rightarrow> jsError + GmailMessage list"
  fetchWorld :: "string \<Rightarrow> world"
  services :: serviceStore
  getBreachesAnswer :: "string \<Rightarrow> jsError + breach list"
  upsertAnswer :: "dbError option"

text \<open>\<^verbatim>\<open>notify\<close> (notify.ts): the insert, then \<^verbatim>\<open>if (error) throw error\<close>.\<close>

definition notify ::
  "sweepEnv \<Rightarrow> string \<Rightarrow> notifType \<Rightarrow> nat option \<Rightarrow> nat option \<Rightarrow> unit proc" where
  "notify env userId ty servicesFound breachesFound =
     andThen (emit (Notify userId ty servicesFound breachesFound))
       (\<lambda>u. case notifyAnswer env ty of
               Some e \<Rightarrow> throw (thrownDbError e)
             | None \<Rightarrow> ret ())"

definition sendEmail ::
  "sweepEnv \<Rightarrow> string option \<Rightarrow> string \<Rightarrow> nat option \<Rightarrow> unit proc" where
  "sendEmail env to templateId totalAccounts =
     andThen (emit (SendEmail to templateId totalAccounts))
       (\<lambda>u. case sendEmailAnswer env templateId of
               Some e \<Rightarrow> throw e
             | None \<Rightarrow> ret ())"

definition completedTemplate :: string where
  "completedTemplate = ''5c7439e4-7831-437e-98fd-5d3c6bbf20a7''"

definition failedTemplate :: string where
  "failedTemplate = ''2ffe31a7-325e-4f0b-9055-573dd1467899''"

text \<open>
  \<^verbatim>\<open>saveSweepData\<close>: of its argument it reads the user, the summaries to save, the
  breaches and \<^verbatim>\<open>isIncremental\<close>.
\<close>

definition saveSweepData ::
  "sweepEnv \<Rightarrow> string \<Rightarrow> enriched list \<Rightarrow> breach list \<Rightarrow> bool \<Rightarrow> unit proc" where
  "saveSweepData env userId summary breaches isIncremental =
     andThen (if \<not> isIncremental then emit (DeleteUserServices userId) else ret ())
       (\<lambda>u. andThen
          (if length summary > 0
           then andThen (emit (UpsertUserServices (map (toUserService userId) summary)))
                  (\<lambda>u. case upsertAnswer env of
                          Some e \<Rightarrow> throw (thrownDbError e)
                        | None \<Rightarrow> ret ())
           else ret ())
          (\<lambda>u. if length breaches > 0 then emit (UpsertUserBreaches userId breaches)
                else ret ()))"

text \<open>
  The two operations handed to \<^verbatim>\<open>withTokenRefresh\<close>. The second reports its progress by
  updates of the \<^verbatim>\<open>sweep_events\<close> row.
\<close>

definition listEmailsCall ::
  "sweepEnv \<Rightarrow> string \<Rightarrow> int option \<Rightarrow> string \<Rightarrow> GmailMessage list proc" where
  "listEmailsCall env currentPlan lastScanDate accessToken =
     andThen (emit (ListEmails accessToken currentPlan lastScanDate))
       (\<lambda>u. lift (listEmailsAnswer env accessToken currentPlan lastScanDate))"

definition fetchMetadataCall ::
  "sweepEnv \<Rightarrow> string \<Rightarrow> GmailMessage list \<Rightarrow> string \<Rightarrow> EmailMetadata list proc" where
  "fetchMetadataCall env sweepEventId messages accessToken =
     (let (progress, r) = fetchMetadataForMessages (fetchWorld env accessToken) messages
      in (FetchMetadata accessToken (messageIdsOf messages)
            # map (SetProgress sweepEventId) progress, r))"

text \<open>
  \<^verbatim>\<open>processSweep\<close> from the scoring of the domain summaries to its last statement (the end
  of the \<^verbatim>\<open>try\<close> block).
\<close>

definition finishSweep ::
  "sweepEnv \<Rightarrow> string \<Rightarrow> string \<Rightarrow> user \<Rightarrow> string \<Rightarrow> gmailAccount \<Rightarrow> bool
     \<Rightarrow> DomainAggregate list \<Rightarrow> unit proc" where
  "finishSweep env userId sweepEventId usr currentPlan acct isIncremental domainSummaries =
     (let filtered = filteredSummaries domainSummaries in
      andThen (lift (getBreachesAnswer env (ga_gmail_address acct)))
        (\<lambda>breaches.
           let totalAccountsFound = length filtered;
               toSave = accountsToSave currentPlan filtered
           in andThen (saveSweepData env userId toSave breaches isIncremental)
             (\<lambda>u. andThen (emit (InsertSweepMetrics userId totalAccountsFound (length breaches)
                                    isIncremental))
             (\<lambda>u. andThen (emit (SetCompleted sweepEventId totalAccountsFound (length breaches)))
             (\<lambda>u. andThen (emit (UpdateLastSweepAt userId))
             (\<lambda>u. andThen (notify env userId SweepCompleted (Some totalAccountsFound)
                             (Some (length breaches)))
             (\<lambda>u. sendEmail env (u_email usr) completedTemplate (Some totalAccountsFound))))))))"

text \<open>The \<^verbatim>\<open>try\<close> block of \<^verbatim>\<open>processSweep\<close>.\<close>

definition sweepBody :: "sweepEnv \<Rightarrow> string \<Rightarrow> string \<Rightarrow> user \<Rightarrow> unit proc" where
  "sweepBody env userId sweepEventId usr =
     andThen (emit (SetProcessing sweepEventId))
       (\<lambda>u.
          let currentPlan = orElse (currentPlanOf env userId) ''free'';
              (gmailAccount, gmailErr) = gmailAccountOf env userId
          in if gmailErr \<noteq> None \<or> gmailAccount = None
             then throw (newError ''Gmail account not found'')
             else
               let acct = the gmailAccount;
                   lastScanDate = getIncrementalScanDate (sweepEvents env) userId 24
                                    (nowAtScanCheck env);
                   isIncremental = (lastScanDate \<noteq> None)
               in andThen (withTokenRefresh (listEnv env) acct
                             (listEmailsCall env currentPlan lastScanDate))
                 (\<lambda>messages.
                    andThen (withTokenRefresh (fetchEnv env) acct
                               (fetchMetadataCall env sweepEventId messages))
                 (\<lambda>metadataList.
                    andThen (summarizeByDomain (services env) metadataList)
                 (\<lambda>domainSummaries.
                    finishSweep env userId sweepEventId usr currentPlan acct isIncremental
                      domainSummaries))))"

text \<open>The \<^verbatim>\<open>catch\<close> block of \<^verbatim>\<open>processSweep\<close>.\<close>

definition sweepFailed :: "sweepEnv \<Rightarrow> string \<Rightarrow> string \<Rightarrow> user \<Rightarrow> jsError \<Rightarrow> unit proc" where
  "sweepFailed env userId sweepEventId usr err =
     andThen (emit (SetFailed sweepEventId))
       (\<lambda>u. andThen (notify env userId SweepFailed None None)
       (\<lambda>u. sendEmail env (u_email usr) failedTemplate None))"

definition processSweep :: "sweepEnv \<Rightarrow> string \<Rightarrow> string \<Rightarrow> unit proc" where
  "processSweep env userId sweepEventId =
     (case getUserEmail env userId of
        None \<Rightarrow> notify env userId SweepFailed None None
      | Some usr \<Rightarrow>
          tryCatch (sweepBody env userId sweepEventId usr)
            (sweepFailed env userId sweepEventId usr))"

text \<open>
  The status of a job after a run: the last status any effect of the run wrote to its
  row, or the status it had when no effect wrote one.
\<close>

fun statusAfter :: "string \<Rightarrow> sweepStatus \<Rightarrow> effect list \<Rightarrow> sweepStatus" where
  "statusAfter sid st [] = st"
| "statusAfter sid st (SetProcessing i # evs) =
     statusAfter sid (if i = sid then Processing else st) evs"
| "statusAfter sid st (SetCompleted i a b # evs) =
     statusAfter sid (if i = sid then Completed else st) evs"
| "statusAfter sid st (SetFailed i # evs) =
     statusAfter sid (if i = sid then Failed else st) evs"
| "statusAfter sid st (ev # evs) = statusAfter sid st evs"

text \<open>Every effect of a run satisfies \<open>P\<close>.\<close>

definition allEffects :: "(effect \<Rightarrow> bool) \<Rightarrow> 'a proc \<Rightarrow> bool" where
  "allEffects P m = list_all P (fst m)"

text \<open>
  An effect is not a call of \<^verbatim>\<open>listEmails\<close>, or it is one with the since-instant \<open>x\<close>.
\<close>

fun listsSince :: "int option \<Rightarrow> effect \<Rightarrow> bool" where
  "listsSince x (ListEmails accessToken plan since) = (since = x)"
| "listsSince x ev = True"

section \<open>A sample run\<close>

text \<open>
  A concrete outside world, for evaluating the functions above: one user on the free
  plan with a connected mailbox, who has two completed sweeps, the later of which started
  one hour before the clock of the scan check and lasted ten minutes, and a failed sweep
  after them; another user with a later completed sweep; a vault that marks ciphertexts
  with a prefix; a mailbox with one message, from a support address. The fetch reports a
  full count only, for which the runtime computes 100 percent.
\<close>

definition sampleTokenEnv :: tokenEnv where
  "sampleTokenEnv =
     \<lparr>te_decrypt = (\<lambda>s. Inr (drop 4 s)),
      te_encrypt = (\<lambda>s. Inr (''enc:'' @ s)),
      te_refresh = (\<lambda>r. Inr (''new-token'', 3600)),
      te_updateAnswer = None,
      te_now = 90000000\<rparr>"

definition sampleAccount :: gmailAccount where
  "sampleAccount =
     \<lparr>ga_user_id = ''u1'', ga_gmail_address = ''ann@example.com'',
      ga_access_token_encrypted = ''enc:old-token'',
      ga_refresh_token_encrypted = Some ''enc:refresh'',
      ga_token_expires_at = Some 99000000\<rparr>"

text \<open>
  An operation that the mail API refuses with status 401 under the old access token and
  serves under any other.
\<close>

definition sampleOperation :: "string \<Rightarrow> GmailMessage list proc" where
  "sampleOperation accessToken =
     andThen (emit (ListEmails accessToken ''free'' None))
       (\<lambda>u. if accessToken = ''old-token''
             then throw \<lparr>e_code = Some 401, e_status = None,
                          e_message = ''Request had invalid authentication credentials'',
                          e_error = None\<rparr>
             else ret [\<lparr>gm_id = Some ''m1'', gm_threadId = None\<rparr>])"

text \<open>The error the store answers when it cannot write.\<close>

definition sampleStoreError :: dbError where
  "sampleStoreError =
     \<lparr>db_code = ''57014'', db_message = ''canceling statement due to statement timeout''\<rparr>"

definition sampleWorld :: world where
  "sampleWorld =
     \<lparr>httpGet = (\<lambda>mid k. HttpOk \<lparr>g_id = Some mid, g_internalDate = None,
                                  g_headers = [(Some ''From'', Some ''Acme <support@acme.com>''),
                                               (Some ''Subject'', Some ''Welcome to Acme'')]\<rparr>),
      msToISO = (\<lambda>s. None),
      deal = (\<lambda>ids. [ids, [], [], [], []]),
      arrival = concat,
      percentOf = (\<lambda>p n. if p = n then 100 else 0)\<rparr>"

definition sampleEnv :: sweepEnv where
  "sampleEnv =
     \<lparr>getUserEmail = (\<lambda>u. Some \<lparr>u_email = Some ''ann@example.com''\<rparr>),
      notifyAnswer = (\<lambda>ty. None),
      sendEmailAnswer = (\<lambda>template. None),
      currentPlanOf = (\<lambda>u. None),
      gmailAccountOf = (\<lambda>u. (Some sampleAccount, None)),
      sweepEvents =
        Inr [\<lparr>se_id = ''s0'', se_user_id = ''u1'', se_status = Completed,
              se_started_at = Some 1000, se_completed_at = Some 2000\<rparr>,
             \<lparr>se_id = ''s1'', se_user_id = ''u1'', se_status = Completed,
              se_started_at = Some 86400000, se_completed_at = Some 87000000\<rparr>,
             \<lparr>se_id = ''s2'', se_user_id = ''u1'', se_status = Failed,
              se_started_at = Some 89000000, se_completed_at = Some 89000500\<rparr>,
             \<lparr>se_id = ''s3'', se_user_id = ''u2'', se_status = Completed,
              se_started_at = Some 89500000, se_completed_at = Some 89600000\<rparr>],
      nowAtScanCheck = 90000000,
      listEnv = sampleTokenEnv,
      fetchEnv = sampleTokenEnv,
      listEmailsAnswer = (\<lambda>accessToken plan since.
                            Inr [\<lparr>gm_id = Some ''m1'', gm_threadId = None\<rparr>]),
      fetchWorld = (\<lambda>accessToken. sampleWorld),
      services = \<lparr>selectService = (\<lambda>d. (Some ''svc-1'', None)),
                  insertService = (\<lambda>d. (None, None)),
                  dateToISO = (\<lambda>s. Some s)\<rparr>,
      getBreachesAnswer = (\<lambda>address. Inr []),
      upsertAnswer = None\<rparr>"

text \<open>
  The same world with a busier mailbox: 51 messages with the identifiers \<^verbatim>\<open>0\<close> to
  \<^verbatim>\<open>50\<close>, message \<open>i\<close> sent from \<^verbatim>\<open>a@s\<close>\<open>i\<close>\<^verbatim>\<open>.io\<close>; the ten with a one-digit
  identifier are receipts, the others welcome messages. Every domain has a service
  already. The five workers pull the identifiers in turn, and their requests complete in
  the order in which they were sent.
\<close>

definition busyMessages :: "GmailMessage list" where
  "busyMessages = map (\<lambda>i. \<lparr>gm_id = Some (showNat i), gm_threadId = None\<rparr>) [0..<51]"

definition busyWorld :: world where
  "busyWorld =
     \<lparr>httpGet = (\<lambda>mid k. HttpOk
                    \<lparr>g_id = Some mid, g_internalDate = None,
                     g_headers = [(Some ''From'', Some (''a@s'' @ mid @ ''.io'')),
                                  (Some ''Subject'',
                                   Some (if length mid = 1 then ''Receipt''
                                         else ''Welcome to S''))]\<rparr>),
      msToISO = (\<lambda>s. None),
      deal = (\<lambda>ids. map (\<lambda>j. map (\<lambda>i. ids ! i) (filter (\<lambda>i. i mod 5 = j) [0..<length ids]))
                        [0..<5]),
      arrival = (\<lambda>rss. concat (transpose rss)),
      percentOf = (\<lambda>p n. if p = n then 100 else 0)\<rparr>"

definition busyEnv :: sweepEnv where
  "busyEnv =
     sampleEnv
       \<lparr>listEmailsAnswer := (\<lambda>accessToken plan since. Inr busyMessages),
        fetchWorld := (\<lambda>accessToken. busyWorld),
        services := \<lparr>selectService = (\<lambda>d. (Some (''svc-'' @ d), None)),
                     insertService = (\<lambda>d. (None, None)),
                     dateToISO = (\<lambda>s. Some s)\<rparr>\<rparr>"

text \<open>
  The metadata of message \<open>i\<close> of the busy mailbox, and the aggregate of its domain.
\<close>

definition busyMetadata :: "nat \<Rightarrow> EmailMetadata" where
  "busyMetadata i =
     \<lparr>m_id = showNat i, m_from = ''a@s'' @ showNat i @ ''.io'',
      m_subject = (if i < 10 then ''Receipt'' else ''Welcome to S''),
      m_date = [], m_internalDate = None\<rparr>"

definition busyAggregate :: "nat \<Rightarrow> DomainAggregate" where
  "busyAggregate i =
     \<lparr>da_domain = ''s'' @ showNat i @ ''.io'', da_emailCount = 1,
      da_firstSeenAt = None, da_lastSeenAt = None,
      da_serviceId = Some (''svc-s'' @ showNat i @ ''.io''),
      da_subject = (if i < 10 then ''Receipt'' else ''Welcome to S''),
      da_subjects = [if i < 10 then ''Receipt'' else ''Welcome to S''],
      da_supportEmail = Some (''support@s'' @ showNat i @ ''.io''),
      da_privacyEmail = Some (''privacy@s'' @ showNat i @ ''.io''),
      da_contactConfidence = Low\<rparr>"

section \<open>Token vault (encryption.ts)\<close>










section \<open>Properties of the string functions\<close>

lemma startsWith_iff: "startsWith s w \<longleftrightarrow> (\<exists>q. s = w @ q)"
  by (induction s w rule: startsWith.induct) auto

lemma includesStr_iff: "includesStr s w \<longleftrightarrow> (\<exists>p q. s = p @ w @ q)"
proof (induction s)
  case Nil
  then show ?case by auto
next
  case (Cons c cs)
  show ?case
  proof
    assume "includesStr (c # cs) w"
    then consider "startsWith (c # cs) w" | "includesStr cs w" by auto
    then show "\<exists>p q. c # cs = p @ w @ q"
    proof cases
      case 1
      then obtain q where "c # cs = w @ q" by (auto simp: startsWith_iff)
      then have "c # cs = [] @ w @ q" by simp
      then show ?thesis by blast
    next
      case 2
      then obtain p q where "cs = p @ w @ q" using Cons.IH by blast
      then have "c # cs = (c # p) @ w @ q" by simp
      then show ?thesis by blast
    qed
  next
    assume "\<exists>p q. c # cs = p @ w @ q"
    then obtain p q where pq: "c # cs = p @ w @ q" by blast
    show "includesStr (c # cs) w"
    proof (cases p)
      case Nil
      with pq have "startsWith (c # cs) w" by (auto simp: startsWith_iff)
      then show ?thesis by simp
    next
      case (Cons a p')
      with pq have "cs = p' @ w @ q" by simp
      then have "includesStr cs w" using Cons.IH by blast
      then show ?thesis by simp
    qed
  qed
qed

lemma includesStr_trans: "includesStr t s \<Longrightarrow> includesStr s w \<Longrightarrow> includesStr t w"
  unfolding includesStr_iff
  by (metis append.assoc)

lemma join_member: "s \<in> set zs \<Longrightarrow> \<exists>p q. join sep zs = p @ s @ q"
proof (induction sep zs rule: join.induct)
  case (1 sep)
  then show ?case by simp
next
  case (2 sep x)
  then have "join sep [x] = [] @ s @ []" by simp
  then show ?case by blast
next
  case (3 sep x y ys)
  show ?case
  proof (cases "s = x")
    case True
    then have "join sep (x # y # ys) = [] @ s @ (sep @ join sep (y # ys))" by simp
    then show ?thesis by blast
  next
    case False
    with 3 obtain p q where "join sep (y # ys) = p @ s @ q" by auto
    then have "join sep (x # y # ys) = (x @ sep @ p) @ s @ q" by simp
    then show ?thesis by blast
  qed
qed

section \<open>Confidence score and the order of the subjects\<close>

lemma includes_joined:
  assumes "s \<in> set zs" and "s \<noteq> []"
  shows "includesStr (toLowerCase (join sep (filterBoolean zs))) (toLowerCase s)"
proof -
  from assms have "s \<in> set (filterBoolean zs)" by (simp add: filterBoolean_def)
  then obtain p q where "join sep (filterBoolean zs) = p @ s @ q"
    using join_member by blast
  then have "toLowerCase (join sep (filterBoolean zs)) = toLowerCase p @ toLowerCase s @ toLowerCase q"
    by (simp add: toLowerCase_def)
  then show ?thesis unfolding includesStr_iff by blast
qed

lemma subjectWords_nonempty: "w \<in> set subjectWords \<Longrightarrow> w \<noteq> []"
  by (auto simp: subjectWords_def onboardingWords_def verificationWords_def securityWords_def
      transactionalWords_def billingWords_def managementWords_def)

lemma word_carries_over:
  assumes perm: "mset xs = mset ys"
    and within: "matchesWithinOne xs"
    and w: "w \<in> set subjectWords"
    and hit: "includesStr (toLowerCase (join '' '' (filterBoolean xs))) w"
  shows "includesStr (toLowerCase (join '' '' (filterBoolean ys))) w"
proof -
  from within w hit obtain s where s: "s \<in> set xs" "includesStr (toLowerCase s) w"
    unfolding matchesWithinOne_def list_all_iff list_ex_iff by blast
  from w have "w \<noteq> []" by (rule subjectWords_nonempty)
  with s(2) have "s \<noteq> []" by (cases s) (auto simp: toLowerCase_def)
  from perm have "set xs = set ys" by (rule mset_eq_setD)
  with s(1) have "s \<in> set ys" by simp
  then have "includesStr (toLowerCase (join '' '' (filterBoolean ys))) (toLowerCase s)"
    using \<open>s \<noteq> []\<close> by (rule includes_joined)
  then show ?thesis using s(2) by (rule includesStr_trans)
qed

lemma testAny_carries_over:
  assumes "mset xs = mset ys" "matchesWithinOne xs" "matchesWithinOne ys"
    and "set ws \<subseteq> set subjectWords"
  shows "testAny ws (toLowerCase (join '' '' (filterBoolean xs)))
       = testAny ws (toLowerCase (join '' '' (filterBoolean ys)))"
  using assms word_carries_over[of xs ys] word_carries_over[of ys xs]
  unfolding testAny_def list_ex_iff by (metis subsetD)

lemma allSubjects_update: "allSubjects (a\<lparr>s_subjects := Some zs\<rparr>) = toLowerCase (join '' '' (filterBoolean zs))"
  by (simp add: allSubjects_def)

text \<open>
  C6 (as amended). Permuting the collected subjects leaves the confidence score unchanged
  when, in both orders, every signal word found in the joined subjects lies inside a
  single subject.
\<close>

theorem score_permutation_invariant:
  assumes "mset xs = mset ys" "matchesWithinOne xs" "matchesWithinOne ys"
  shows "calculateConfidenceScore (a\<lparr>s_subjects := Some ys\<rparr>)
       = calculateConfidenceScore (a\<lparr>s_subjects := Some xs\<rparr>)"
proof -
  have sub: "set onboardingWords \<subseteq> set subjectWords" "set verificationWords \<subseteq> set subjectWords"
    "set securityWords \<subseteq> set subjectWords" "set transactionalWords \<subseteq> set subjectWords"
    "set billingWords \<subseteq> set subjectWords" "set managementWords \<subseteq> set subjectWords"
    by (auto simp: subjectWords_def)
  note eqs = sub[THEN testAny_carries_over[OF assms]]
  show ?thesis
    unfolding calculateConfidenceScore_def Let_def allSubjects_update
    by (simp add: eqs)
qed

text \<open>
  C6 as stated fails: the subjects "Welcome" and "to Spotify" score 14 in this order,
  where the joined text reads "welcome to spotify" and the onboarding signal fires, and 4
  in the other order.
\<close>

theorem score_order_counterexample:
  "mset [''Welcome'', ''to Spotify''] = mset [''to Spotify'', ''Welcome''] \<and>
   calculateConfidenceScore
     \<lparr>s_domain = Some ''spotify.com'', s_subject = Some ''Welcome'',
      s_subjects = Some [''Welcome'', ''to Spotify''], s_from = None, s_emailCount = Some 2\<rparr> = 14 \<and>
   calculateConfidenceScore
     \<lparr>s_domain = Some ''spotify.com'', s_subject = Some ''Welcome'',
      s_subjects = Some [''to Spotify'', ''Welcome''], s_from = None, s_emailCount = Some 2\<rparr> = 4"
  by code_simp

text \<open>The theorem at two subjects that each hold their signal word.\<close>

theorem score_permutation_invariant_witness:
  "mset [''Welcome to Spotify'', ''Your receipt''] = mset [''Your receipt'', ''Welcome to Spotify''] \<and>
   matchesWithinOne [''Welcome to Spotify'', ''Your receipt''] \<and>
   matchesWithinOne [''Your receipt'', ''Welcome to Spotify''] \<and>
   calculateConfidenceScore
     \<lparr>s_domain = Some ''spotify.com'', s_subject = Some ''Welcome to Spotify'',
      s_subjects = Some [''Your receipt'', ''Welcome to Spotify''], s_from = None, s_emailCount = Some 2\<rparr>
   = calculateConfidenceScore
     \<lparr>s_domain = Some ''spotify.com'', s_subject = Some ''Welcome to Spotify'',
      s_subjects = Some [''Welcome to Spotify'', ''Your receipt''], s_from = None, s_emailCount = Some 2\<rparr>"
proof -
  have p: "mset [''Welcome to Spotify'', ''Your receipt''] = mset [''Your receipt'', ''Welcome to Spotify'']"
    by simp
  have m1: "matchesWithinOne [''Welcome to Spotify'', ''Your receipt'']" by code_simp
  have m2: "matchesWithinOne [''Your receipt'', ''Welcome to Spotify'']" by code_simp
  show ?thesis
    using p m1 m2
      score_permutation_invariant [OF p m1 m2,
        of "\<lparr>s_domain = Some ''spotify.com'', s_subject = Some ''Welcome to Spotify'',
             s_subjects = None, s_from = None, s_emailCount = Some 2\<rparr>"]
    by simp
qed

section \<open>Retry with backoff\<close>

lemma backoffEvents_step:
  "a < k \<Longrightarrow> backoffEvents b a k = Attempt a # Sleep (b * 2 ^ a) # backoffEvents b (Suc a) k"
  by (simp add: backoffEvents_def upt_conv_Cons)

lemma backoffEvents_empty: "backoffEvents b k k = []"
  by (simp add: backoffEvents_def)

text \<open>
  The loop from iteration \<open>a\<close>, when the iterations before \<open>k\<close> fail with rate-limit errors
  and iteration \<open>k\<close> returns, or fails with an error that is not retried, or is the last
  one allowed: the loop backs off up to \<open>k\<close>, makes attempt \<open>k\<close> and stops with its outcome.
\<close>

lemma retryLoop_stops:
  assumes "\<forall>j. a \<le> j \<and> j < k \<longrightarrow>
             (\<exists>e'. fn j = Inl e' \<and> isRateLimitError e' \<and> \<not> isGmailAuthError e')"
    and "a \<le> k" and "k < n"
    and "fn k = Inr v \<or>
         (\<exists>e. fn k = Inl e \<and> (isGmailAuthError e \<or> \<not> isRateLimitError e \<or> k = n - 1))"
  shows "retryLoop fn n b a l = (backoffEvents b a k @ [Attempt k], fn k)"
  using assms
proof (induction "k - a" arbitrary: a l)
  case 0
  then have ak: "a = k" by simp
  from 0(5) show ?case
    unfolding ak using \<open>k < n\<close>
    by (subst retryLoop.simps) (auto simp: backoffEvents_empty)
next
  case (Suc d)
  then have lt: "a < k" by simp
  with Suc.prems(1) obtain e' where e': "fn a = Inl e'" "isRateLimitError e'" "\<not> isGmailAuthError e'"
    by (metis order_refl)
  have an: "a < n" "a \<noteq> n - 1" using lt \<open>k < n\<close> by auto
  have IH: "retryLoop fn n b (a + 1) (Some e') = (backoffEvents b (Suc a) k @ [Attempt k], fn k)"
    using Suc.hyps(1)[of "Suc a"] Suc.hyps(2) Suc.prems lt by auto
  show ?case
    by (subst retryLoop.simps) (simp add: e' an IH backoffEvents_step[OF lt] del: One_nat_def)
qed

text \<open>
  Five failures in a row that the loop takes for rate-limit errors: sleeps of 1000, 2000,
  4000 and 8000 ms after the first four, and the fifth error is thrown with no sixth
  attempt.
\<close>

lemma rate_limited_schedule:
  assumes "\<forall>j<5. \<exists>e'. fn j = Inl e' \<and> isRateLimitError e' \<and> \<not> isGmailAuthError e'"
  shows "retryWithBackoff fn 5 1000 =
           ([Attempt 0, Sleep 1000, Attempt 1, Sleep 2000, Attempt 2, Sleep 4000,
             Attempt 3, Sleep 8000, Attempt 4], fn 4)"
proof -
  have "(4::nat) < 5" by simp
  with assms obtain e where "fn 4 = Inl e" by blast
  then have "retryLoop fn 5 1000 0 None = (backoffEvents 1000 0 4 @ [Attempt 4], fn 4)"
    using assms by (intro retryLoop_stops) auto
  then show ?thesis
    by (simp add: retryWithBackoff_def backoffEvents_def upt_conv_Cons)
qed

text \<open>An error the loop does not take for a rate-limit error is thrown at once.\<close>

lemma other_error_not_retried:
  assumes "fn 0 = Inl e" and "\<not> isRateLimitError e"
  shows "retryWithBackoff fn 5 1000 = ([Attempt 0], Inl e)"
  using assms retryLoop_stops[of 0 0 fn 5 undefined 1000 None]
  by (simp add: retryWithBackoff_def backoffEvents_empty)

text \<open>
  C4, at the input where the code departs from it. A request answered with status 403 and
  the quota-exceeded body of the mail API is not retried: the error built for it carries
  the status in its message and the body under \<^verbatim>\<open>error\<close>, so the message has no
  "Quota" in it and \<^verbatim>\<open>error.error.status\<close> is absent (the status sits one level
  deeper). One attempt is made, no sleep, and the error is thrown.
\<close>

theorem quota_403_not_retried:
  "retryWithBackoff
     (metadataRequest (w\<lparr>httpGet := \<lambda>mid k. HttpFail 403 quotaExceededBody\<rparr>) ''18c5a2'') 5 1000
   = ([Attempt 0],
      Inl \<lparr>e_code = Some 403, e_status = None,
           e_message = ''Gmail metadata error for message 18c5a2: 403'',
           e_error = Some quotaExceededBody\<rparr>)"
proof -
  let ?e = "\<lparr>e_code = Some 403, e_status = None,
            e_message = ''Gmail metadata error for message 18c5a2: 403'',
            e_error = Some quotaExceededBody\<rparr>"
  have sn: "showNat 403 = ''403''" by code_simp
  have req: "metadataRequest (w\<lparr>httpGet := \<lambda>mid k. HttpFail 403 quotaExceededBody\<rparr>) ''18c5a2'' 0
             = Inl ?e"
    by (simp add: metadataRequest_def sn)
  have "\<not> isRateLimitError ?e"
    by (simp add: isRateLimitError_def quotaExceededBody_def)
  with req show ?thesis by (rule other_error_not_retried)
qed

section \<open>Canonical domains\<close>

text \<open>
  C5, at the input where the code departs from it. The canonical domain of a sender at
  \<^verbatim>\<open>x.mail.co.uk\<close> is \<^verbatim>\<open>mail.co.uk\<close>, and the canonical domain of a sender at
  \<^verbatim>\<open>mail.co.uk\<close> is \<^verbatim>\<open>co.uk\<close>: the loop that drops noise prefixes counts labels
  without regard to the two-label public suffix.
\<close>

theorem canonical_domain_not_fixed:
  "extractDomain (Some ''news@x.mail.co.uk'') = Some ''mail.co.uk'' \<and>
   extractDomain (Some ''news@mail.co.uk'') = Some ''co.uk''"
  by code_simp

section \<open>Auth errors in the metadata fetcher\<close>

text \<open>A worker throws nothing but auth errors.\<close>

lemma worker_rejects_auth: "worker w ids = Inl e \<Longrightarrow> isGmailAuthError e"
  by (induction ids) (auto split: sum.splits option.splits if_splits)

text \<open>A worker that pulls a message whose request ends in an auth error throws.\<close>

lemma worker_hits_auth:
  assumes "mid \<in> set ids"
    and "snd (retryWithBackoff (metadataRequest w mid) 5 1000) = Inl e"
    and "isGmailAuthError e"
  shows "\<exists>e'. worker w ids = Inl e'"
  using assms(1)
proof (induction ids)
  case Nil
  then show ?case by simp
next
  case (Cons x xs)
  show ?case
  proof (cases "x = mid")
    case True
    then show ?thesis using assms(2,3) by simp
  next
    case False
    with Cons obtain e' where "worker w xs = Inl e'" by auto
    then show ?thesis by (auto split: sum.splits option.splits)
  qed
qed

lemma promiseAll_Inl_member: "promiseAll rs = Inl e \<Longrightarrow> Inl e \<in> set rs"
  by (induction rs) (auto split: sum.splits)

lemma promiseAll_rejects: "Inl e \<in> set rs \<Longrightarrow> \<exists>e'. promiseAll rs = Inl e'"
  by (induction rs) (auto split: sum.splits)


lemma batch_hits_auth:
  assumes "mid \<in> set ids" and "dealsAll w"
    and "snd (retryWithBackoff (metadataRequest w mid) 5 1000) = Inl e"
    and "isGmailAuthError e"
  shows "\<exists>e'. getEmailMetadataBatch w ids = Inl e'"
proof -
  from assms(2) have "set ids \<subseteq> set (concat (deal w ids))" unfolding dealsAll_def by (rule spec)
  with assms(1) have "mid \<in> set (concat (deal w ids))" by (rule subsetD[rotated])
  then obtain pulled where p: "pulled \<in> set (deal w ids)" "mid \<in> set pulled" by auto
  from p(2) assms(3,4) have "\<exists>e'. worker w pulled = Inl e'" by (rule worker_hits_auth)
  then obtain e' where e': "worker w pulled = Inl e'" ..
  from p(1) have "worker w pulled \<in> worker w ` set (deal w ids)" by (rule imageI)
  then have "Inl e' \<in> set (map (worker w) (deal w ids))" by (simp add: e')
  then have "\<exists>e''. promiseAll (map (worker w) (deal w ids)) = Inl e''"
    by (rule promiseAll_rejects)
  then obtain e'' where "promiseAll (map (worker w) (deal w ids)) = Inl e''" ..
  moreover from assms(1) have "ids \<noteq> []" by auto
  ultimately show ?thesis by (simp add: getEmailMetadataBatch_def)
qed

lemma batch_rejects_auth:
  assumes "getEmailMetadataBatch w ids = Inl e"
  shows "isGmailAuthError e"
proof -
  from assms have "promiseAll (map (worker w) (deal w ids)) = Inl e"
    by (auto simp: getEmailMetadataBatch_def split: if_splits sum.splits)
  then have "Inl e \<in> set (map (worker w) (deal w ids))" by (rule promiseAll_Inl_member)
  then obtain pulled where "worker w pulled = Inl e" by auto
  then show ?thesis by (rule worker_rejects_auth)
qed

lemma batchLoop_hits_auth:
  "mid \<in> set ids \<Longrightarrow> dealsAll w \<Longrightarrow>
   snd (retryWithBackoff (metadataRequest w mid) 5 1000) = Inl e \<Longrightarrow> isGmailAuthError e \<Longrightarrow>
   \<exists>e'. snd (batchLoop w n ids results) = Inl e' \<and> isGmailAuthError e'"
proof (induction w n ids results rule: batchLoop.induct)
  case (1 w n ids results)
  from "1.prems"(1) have ne: "ids \<noteq> []" by auto
  show ?case
  proof (cases "getEmailMetadataBatch w (take 200 ids)")
    case (Inl err)
    then have "isGmailAuthError err" by (rule batch_rejects_auth)
    with Inl ne show ?thesis by (subst batchLoop.simps) simp
  next
    case (Inr batchResults)
    have "mid \<notin> set (take 200 ids)"
    proof
      assume "mid \<in> set (take 200 ids)"
      then have "\<exists>e'. getEmailMetadataBatch w (take 200 ids) = Inl e'"
        using "1.prems"(2,3,4) by (rule batch_hits_auth)
      with Inr show False by simp
    qed
    moreover have "set ids = set (take 200 ids) \<union> set (drop 200 ids)"
      by (metis append_take_drop_id set_append)
    ultimately have "mid \<in> set (drop 200 ids)" using "1.prems"(1) by auto
    then have "\<exists>e'. snd (batchLoop w n (drop 200 ids) (results @ batchResults)) = Inl e' \<and>
                    isGmailAuthError e'"
      using "1.prems"(2,3,4) by (rule "1.IH"(2)[OF ne Inr refl])
    then obtain e' where "snd (batchLoop w n (drop 200 ids) (results @ batchResults)) = Inl e'"
      "isGmailAuthError e'" by blast
    with Inr ne show ?thesis
      by (subst batchLoop.simps) (auto simp: Let_def split: prod.splits)
  qed
qed

text \<open>
  C7. When the \<open>k\<close>-th request for a message of the fetch fails with an auth error (the
  requests before it, if any, having been rate-limited), the retry loop makes that attempt
  and stops: the auth error is thrown with no sleep and no attempt after it. And the whole
  fetch ends by throwing an auth error.
\<close>

theorem auth_error_aborts_fetch:
  assumes "metadataRequest w mid k = Inl e" and "isGmailAuthError e"
    and "\<forall>j<k. \<exists>e'. metadataRequest w mid j = Inl e' \<and> isRateLimitError e' \<and>
                     \<not> isGmailAuthError e'"
    and "k < 5"
    and "mid \<in> set (messageIdsOf messages)" and "dealsAll w"
  shows "retryWithBackoff (metadataRequest w mid) 5 1000
           = (backoffEvents 1000 0 k @ [Attempt k], Inl e) \<and>
         (\<exists>e'. snd (fetchMetadataForMessages w messages) = Inl e' \<and> isGmailAuthError e')"
proof -
  have pre: "\<forall>j. 0 \<le> j \<and> j < k \<longrightarrow>
      (\<exists>e'. metadataRequest w mid j = Inl e' \<and> isRateLimitError e' \<and> \<not> isGmailAuthError e')"
    using assms(3) by blast
  have stop: "metadataRequest w mid k = Inr undefined \<or>
      (\<exists>e. metadataRequest w mid k = Inl e \<and>
           (isGmailAuthError e \<or> \<not> isRateLimitError e \<or> k = 5 - 1))"
    using assms(1,2) by blast
  have "retryLoop (metadataRequest w mid) 5 1000 0 None
          = (backoffEvents 1000 0 k @ [Attempt k], metadataRequest w mid k)"
    using pre _ assms(4) stop by (rule retryLoop_stops) simp
  then have run: "retryWithBackoff (metadataRequest w mid) 5 1000
               = (backoffEvents 1000 0 k @ [Attempt k], Inl e)"
    by (simp add: retryWithBackoff_def assms(1))
  then have "snd (retryWithBackoff (metadataRequest w mid) 5 1000) = Inl e" by simp
  with assms(5,6)
  have "\<exists>e'. snd (batchLoop w (length (messageIdsOf messages)) (messageIdsOf messages) []) = Inl e'
               \<and> isGmailAuthError e'"
    using assms(2) by (rule batchLoop_hits_auth)
  moreover from assms(5) have "messages \<noteq> []"
    by (auto simp: messageIdsOf_def filterBoolean_def)
  ultimately have "\<exists>e'. snd (fetchMetadataForMessages w messages) = Inl e' \<and> isGmailAuthError e'"
    by (simp add: fetchMetadataForMessages_def Let_def)
  with run show ?thesis by simp
qed

text \<open>
  The theorem at a message whose first request is answered 429 and whose second is
  answered 401: one sleep of 1000 ms, then the auth error, which ends the fetch.
\<close>

theorem auth_error_aborts_fetch_witness:
  "retryWithBackoff
     (metadataRequest
        \<lparr>httpGet = (\<lambda>mid k. if k = 0 then HttpFail 429 JNull else HttpFail 401 JNull),
         msToISO = (\<lambda>s. None), deal = (\<lambda>ids. [ids, [], [], [], []]),
         arrival = concat, percentOf = (\<lambda>p n. 0)\<rparr> ''m1'') 5 1000
     = ([Attempt 0, Sleep 1000, Attempt 1],
        Inl \<lparr>e_code = Some 401, e_status = None,
             e_message = ''Gmail metadata error for message m1: 401'', e_error = Some JNull\<rparr>) \<and>
   (\<exists>e'. snd (fetchMetadataForMessages
                 \<lparr>httpGet = (\<lambda>mid k. if k = 0 then HttpFail 429 JNull else HttpFail 401 JNull),
                  msToISO = (\<lambda>s. None), deal = (\<lambda>ids. [ids, [], [], [], []]),
         arrival = concat, percentOf = (\<lambda>p n. 0)\<rparr>
                 [\<lparr>gm_id = Some ''m1'', gm_threadId = None\<rparr>]) = Inl e' \<and>
          isGmailAuthError e')"
proof -
  let ?w = "\<lparr>httpGet = (\<lambda>mid k. if k = 0 then HttpFail 429 JNull else HttpFail 401 JNull),
             msToISO = (\<lambda>s. None), deal = (\<lambda>ids. [ids, [], [], [], []]),
         arrival = concat, percentOf = (\<lambda>p n. 0)\<rparr>"
  let ?e = "\<lparr>e_code = Some 401, e_status = None,
             e_message = ''Gmail metadata error for message m1: 401'', e_error = Some JNull\<rparr>"
  let ?r = "\<lparr>e_code = Some 429, e_status = None,
             e_message = ''Gmail metadata error for message m1: 429'', e_error = Some JNull\<rparr>"
  have sn: "showNat 401 = ''401''" "showNat 429 = ''429''" by code_simp+
  have h1: "metadataRequest ?w ''m1'' 1 = Inl ?e" by (simp add: metadataRequest_def sn)
  have h2: "isGmailAuthError ?e" by (simp add: isGmailAuthError_def)
  have r0: "metadataRequest ?w ''m1'' 0 = Inl ?r" by (simp add: metadataRequest_def sn)
  have r1: "isRateLimitError ?r" by (simp add: isRateLimitError_def)
  have r2: "\<not> isGmailAuthError ?r" by (simp add: isGmailAuthError_def)
  have h3: "\<forall>j<1::nat. \<exists>e'. metadataRequest ?w ''m1'' j = Inl e' \<and> isRateLimitError e' \<and>
                     \<not> isGmailAuthError e'"
    using r0 r1 r2 by simp
  have h4: "(1::nat) < 5" by simp
  have h5: "''m1'' \<in> set (messageIdsOf [\<lparr>gm_id = Some ''m1'', gm_threadId = None\<rparr>])"
    by (simp add: messageIdsOf_def filterBoolean_def)
  have h6: "dealsAll ?w" by (simp add: dealsAll_def)
  show ?thesis
    using auth_error_aborts_fetch [OF h1 h2 h3 h4 h5 h6]
    by (simp add: backoffEvents_def)
qed


section \<open>Contact confidence of the domain aggregates\<close>







section \<open>Runs that return\<close>












section \<open>A sweep whose user cannot be resolved\<close>

text \<open>
  C3, at the input where the code departs from it. When the user look-up returns nothing,
  \<^verbatim>\<open>processSweep\<close> inserts the failure notification and returns: it writes nothing to the
  row of the job, which keeps the status it had, \<open>Pending\<close>.
\<close>

theorem unresolved_user_leaves_job_pending:
  "processSweep (env\<lparr>getUserEmail := \<lambda>u. None, notifyAnswer := \<lambda>ty. None\<rparr>) userId sweepEventId
     = ([Notify userId SweepFailed None None], Inr ()) \<and>
   statusAfter sweepEventId Pending
     (fst (processSweep (env\<lparr>getUserEmail := \<lambda>u. None, notifyAnswer := \<lambda>ty. None\<rparr>)
             userId sweepEventId)) = Pending"
  by (simp add: processSweep_def notify_def andThen_def emit_def ret_def)


section \<open>Token refresh\<close>

text \<open>A refresh whose two calls succeed: the two effects, and the new token.\<close>

lemma refreshAndPersist_run:
  assumes "te_refresh te rt = Inr (newToken, ttl)" and "te_encrypt te newToken = Inr enc"
  shows "refreshAndPersist te acct rt
           = ([RefreshAccessToken rt,
               UpdateGmailAccount (ga_user_id acct) enc (te_now te + ttl * 1000)
                 (te_updateAnswer te)], Inr newToken)"
  using assms
  by (simp add: refreshAndPersist_def andThen_def emit_def lift_def ret_def)

text \<open>
  C2 (as amended). Whenever the wrapper refreshes, the update of the credential record
  with the new encrypted access token and the new expiry is issued before the operation
  runs with the new token: in a proactive refresh (an expired token) before its first
  run, in a reactive refresh (an auth error of the first run) before the retry. The
  answer of the store to the update, \<open>te_updateAnswer\<close>, is recorded in the effect and
  decides nothing: the operation runs with the new token and its outcome is the outcome of
  the wrapper.
\<close>

theorem refresh_is_persisted_before_retry:
  assumes "decryptRefreshToken te acct = Inr (Some rt)" and "rt \<noteq> []"
    and "te_refresh te rt = Inr (newToken, ttl)" and "te_encrypt te newToken = Inr enc"
  shows
    "(te_decrypt te (ga_access_token_encrypted acct) = Inr tok \<longrightarrow>
      ga_token_expires_at acct = Some expiry \<longrightarrow>
      expiry div 1000 \<noteq> 0 \<longrightarrow> expiry div 1000 < te_now te div 1000 \<longrightarrow>
      fn newToken = (t1, Inr v) \<longrightarrow>
        withTokenRefresh te acct fn
          = ([RefreshAccessToken rt,
              UpdateGmailAccount (ga_user_id acct) enc (te_now te + ttl * 1000)
                (te_updateAnswer te)] @ t1, Inr v)) \<and>
     (ensureValidAccessToken te acct = (t0, Inr tok0) \<longrightarrow>
      fn tok0 = (t1, Inl err) \<longrightarrow> isGmailAuthError err \<longrightarrow>
        withTokenRefresh te acct fn
          = (t0 @ t1 @
             [RefreshAccessToken rt,
              UpdateGmailAccount (ga_user_id acct) enc (te_now te + ttl * 1000)
                (te_updateAnswer te)] @ fst (fn newToken),
             snd (fn newToken)))"
proof (intro conjI impI)
  note run = refreshAndPersist_run[OF assms(3,4), of acct]
  assume "te_decrypt te (ga_access_token_encrypted acct) = Inr tok"
    "ga_token_expires_at acct = Some expiry" "expiry div 1000 \<noteq> 0"
    "expiry div 1000 < te_now te div 1000" "fn newToken = (t1, Inr v)"
  then show "withTokenRefresh te acct fn
          = ([RefreshAccessToken rt,
              UpdateGmailAccount (ga_user_id acct) enc (te_now te + ttl * 1000)
                (te_updateAnswer te)] @ t1, Inr v)"
    using assms(1,2)
    by (simp add: withTokenRefresh_def ensureValidAccessToken_def run andThen_def lift_def
        tryCatch_def truthy_def Let_def)
next
  note run = refreshAndPersist_run[OF assms(3,4), of acct]
  assume "ensureValidAccessToken te acct = (t0, Inr tok0)" "fn tok0 = (t1, Inl err)"
    "isGmailAuthError err"
  then show "withTokenRefresh te acct fn
          = (t0 @ t1 @
             [RefreshAccessToken rt,
              UpdateGmailAccount (ga_user_id acct) enc (te_now te + ttl * 1000)
                (te_updateAnswer te)] @ fst (fn newToken),
             snd (fn newToken))"
    using assms(1,2)
    by (simp add: withTokenRefresh_def run andThen_def lift_def tryCatch_def truthy_def
        split: prod.splits)
qed

text \<open>
  C2 as stated fails: the store answers the update of the credential record with an
  error, and the wrapper retries the operation with the unsaved token and returns its
  result.
\<close>

theorem retry_after_failed_persist_counterexample:
  "withTokenRefresh (sampleTokenEnv\<lparr>te_updateAnswer := Some sampleStoreError\<rparr>) sampleAccount
     sampleOperation
   = ([ListEmails ''old-token'' ''free'' None,
       RefreshAccessToken ''refresh'',
       UpdateGmailAccount ''u1'' ''enc:new-token'' 93600000 (Some sampleStoreError),
       ListEmails ''new-token'' ''free'' None],
      Inr [\<lparr>gm_id = Some ''m1'', gm_threadId = None\<rparr>])"
  by code_simp


text \<open>
  The theorem at the sample account: with an expired token (a proactive refresh), and
  with a token the mail API refuses (a reactive one).
\<close>

theorem refresh_is_persisted_before_retry_witness:
  "withTokenRefresh sampleTokenEnv (sampleAccount\<lparr>ga_token_expires_at := Some 80000000\<rparr>)
     sampleOperation
   = ([RefreshAccessToken ''refresh'',
       UpdateGmailAccount ''u1'' ''enc:new-token'' 93600000 None,
       ListEmails ''new-token'' ''free'' None],
      Inr [\<lparr>gm_id = Some ''m1'', gm_threadId = None\<rparr>]) \<and>
   withTokenRefresh sampleTokenEnv sampleAccount sampleOperation
   = ([ListEmails ''old-token'' ''free'' None,
       RefreshAccessToken ''refresh'',
       UpdateGmailAccount ''u1'' ''enc:new-token'' 93600000 None,
       ListEmails ''new-token'' ''free'' None],
      Inr [\<lparr>gm_id = Some ''m1'', gm_threadId = None\<rparr>])"
proof -
  let ?old = "sampleAccount\<lparr>ga_token_expires_at := Some 80000000\<rparr>"
  let ?err = "\<lparr>e_code = Some 401, e_status = None,
               e_message = ''Request had invalid authentication credentials'',
               e_error = None\<rparr>"
  let ?msgs = "[\<lparr>gm_id = Some ''m1'', gm_threadId = None\<rparr>]"
  have rtA: "decryptRefreshToken sampleTokenEnv ?old = Inr (Some ''refresh'')"
    by (simp add: decryptRefreshToken_def sampleTokenEnv_def sampleAccount_def truthy_def)
  have rtB: "decryptRefreshToken sampleTokenEnv sampleAccount = Inr (Some ''refresh'')"
    by (simp add: decryptRefreshToken_def sampleTokenEnv_def sampleAccount_def truthy_def)
  have ne: "''refresh'' \<noteq> []" by simp
  have rf: "te_refresh sampleTokenEnv ''refresh'' = Inr (''new-token'', 3600)"
    by (simp add: sampleTokenEnv_def)
  have en: "te_encrypt sampleTokenEnv ''new-token'' = Inr ''enc:new-token''"
    by (simp add: sampleTokenEnv_def)
  have dec: "te_decrypt sampleTokenEnv (ga_access_token_encrypted ?old) = Inr ''old-token''"
    by (simp add: sampleTokenEnv_def sampleAccount_def)
  have ex: "ga_token_expires_at ?old = Some 80000000" by simp
  have ex1: "(80000000::int) div 1000 \<noteq> 0" by simp
  have ex2: "(80000000::int) div 1000 < te_now sampleTokenEnv div 1000"
    by (simp add: sampleTokenEnv_def)
  have opNew: "sampleOperation ''new-token'' = ([ListEmails ''new-token'' ''free'' None], Inr ?msgs)"
    by (simp add: sampleOperation_def andThen_def emit_def ret_def)
  have opOld: "sampleOperation ''old-token'' = ([ListEmails ''old-token'' ''free'' None], Inl ?err)"
    by (simp add: sampleOperation_def andThen_def emit_def throw_def)
  have auth: "isGmailAuthError ?err" by (simp add: isGmailAuthError_def)
  have ens: "ensureValidAccessToken sampleTokenEnv sampleAccount = ([], Inr ''old-token'')"
    by code_simp
  have A: "withTokenRefresh sampleTokenEnv ?old sampleOperation
             = ([RefreshAccessToken ''refresh'',
                 UpdateGmailAccount (ga_user_id ?old) ''enc:new-token''
                   (te_now sampleTokenEnv + 3600 * 1000) (te_updateAnswer sampleTokenEnv)]
                @ [ListEmails ''new-token'' ''free'' None], Inr ?msgs)"
    using refresh_is_persisted_before_retry [OF rtA ne rf en,
        where tok = "''old-token''" and expiry = 80000000 and fn = sampleOperation
          and ?t1.0 = "[ListEmails ''new-token'' ''free'' None]" and v = ?msgs]
      dec ex ex1 ex2 opNew
    by blast
  have B: "withTokenRefresh sampleTokenEnv sampleAccount sampleOperation
             = ([] @ [ListEmails ''old-token'' ''free'' None] @
                [RefreshAccessToken ''refresh'',
                 UpdateGmailAccount (ga_user_id sampleAccount) ''enc:new-token''
                   (te_now sampleTokenEnv + 3600 * 1000) (te_updateAnswer sampleTokenEnv)]
                @ fst (sampleOperation ''new-token''), snd (sampleOperation ''new-token''))"
    using refresh_is_persisted_before_retry [OF rtB ne rf en,
        where fn = sampleOperation and ?t0.0 = "[]" and ?tok0.0 = "''old-token''"
          and ?t1.0 = "[ListEmails ''old-token'' ''free'' None]" and err = ?err]
      ens opOld auth
    by blast
  show ?thesis
    unfolding A B opNew
    by (simp add: sampleTokenEnv_def sampleAccount_def)
qed


section \<open>What the sweep passes to the lister\<close>

text \<open>How \<open>allEffects\<close> goes through the combinators of the runs.\<close>

lemma allEffects_ret: "allEffects P (ret x)" by (simp add: allEffects_def ret_def)
lemma allEffects_throw: "allEffects P (throw e)" by (simp add: allEffects_def throw_def)
lemma allEffects_lift: "allEffects P (lift r)" by (simp add: allEffects_def lift_def)
lemma allEffects_emit: "P ev \<Longrightarrow> allEffects P (emit ev)" by (simp add: allEffects_def emit_def)

lemma allEffects_andThen:
  "allEffects P m \<Longrightarrow> (\<And>x. allEffects P (f x)) \<Longrightarrow> allEffects P (andThen m f)"
  by (auto simp: allEffects_def andThen_def split: prod.splits sum.splits)
    (metis fst_conv)

lemma allEffects_tryCatch:
  "allEffects P m \<Longrightarrow> (\<And>e. allEffects P (h e)) \<Longrightarrow> allEffects P (tryCatch m h)"
  by (auto simp: allEffects_def tryCatch_def split: prod.splits sum.splits)
    (metis fst_conv)

lemmas allEffects_intros =
  allEffects_andThen allEffects_tryCatch allEffects_emit allEffects_ret allEffects_throw
  allEffects_lift

text \<open>
  No stage of the sweep calls \<^verbatim>\<open>listEmails\<close> but the listing stage, and that one passes
  the since-instant it is given.
\<close>

lemma since_notify: "allEffects (listsSince x) (notify env u ty a b)"
  unfolding notify_def
  by (intro allEffects_intros) (auto intro: allEffects_intros split: option.splits)

lemma since_sendEmail: "allEffects (listsSince x) (sendEmail env to template n)"
  unfolding sendEmail_def
  by (intro allEffects_intros) (auto intro: allEffects_intros split: option.splits)

lemma since_saveSweepData: "allEffects (listsSince x) (saveSweepData env u summary bs inc)"
  unfolding saveSweepData_def
  by (intro allEffects_intros) (auto intro!: allEffects_intros split: option.splits)

lemma since_finishSweep:
  "allEffects (listsSince x) (finishSweep env u sid usr plan acct inc ds)"
  unfolding finishSweep_def Let_def
  by (intro allEffects_intros since_saveSweepData since_notify since_sendEmail) simp_all

lemma since_resolveService: "allEffects (listsSince x) (resolveService st d g)"
  unfolding resolveService_def Let_def
  by (auto intro!: allEffects_intros split: prod.splits)

lemma since_resolveLoop: "allEffects (listsSince x) (resolveLoop st mp sids)"
proof (induction mp arbitrary: sids)
  case Nil
  show ?case by (simp add: allEffects_ret)
next
  case (Cons dg rest)
  obtain d g where dg: "dg = (d, g)" by (cases dg)
  show ?case
    unfolding dg resolveLoop.simps
    by (intro allEffects_intros)
      (auto intro!: allEffects_intros since_resolveService Cons.IH split: option.splits)
qed

lemma since_summarizeByDomain: "allEffects (listsSince x) (summarizeByDomain st metas)"
  unfolding summarizeByDomain_def
  by (intro allEffects_intros since_resolveLoop)

lemma since_refreshAndPersist: "allEffects (listsSince x) (refreshAndPersist te acct rt)"
  unfolding refreshAndPersist_def
  by (intro allEffects_intros) (auto intro!: allEffects_intros)

lemma since_ensureValidAccessToken: "allEffects (listsSince x) (ensureValidAccessToken te acct)"
  unfolding ensureValidAccessToken_def Let_def
  by (intro allEffects_intros) (auto intro!: allEffects_intros since_refreshAndPersist)

lemma since_withTokenRefresh:
  assumes "\<And>tok. allEffects (listsSince x) (fn tok)"
  shows "allEffects (listsSince x) (withTokenRefresh te acct fn)"
  unfolding withTokenRefresh_def
  by (intro allEffects_intros since_ensureValidAccessToken assms)
    (auto intro!: allEffects_intros since_refreshAndPersist assms)

lemma since_listEmailsCall: "allEffects (listsSince x) (listEmailsCall env plan x tok)"
  unfolding listEmailsCall_def
  by (intro allEffects_intros) simp

lemma since_fetchMetadataCall: "allEffects (listsSince x) (fetchMetadataCall env sid msgs tok)"
  by (simp add: fetchMetadataCall_def allEffects_def list_all_iff split: prod.splits)

lemma since_sweepFailed: "allEffects (listsSince x) (sweepFailed env u sid usr err)"
  unfolding sweepFailed_def
  by (intro allEffects_intros since_notify since_sendEmail) simp

lemma since_sweepBody:
  "allEffects (listsSince (getIncrementalScanDate (sweepEvents env) u 24 (nowAtScanCheck env)))
     (sweepBody env u sid usr)"
  unfolding sweepBody_def Let_def
  by (intro allEffects_intros)
    (auto intro!: allEffects_intros since_withTokenRefresh since_listEmailsCall
      since_fetchMetadataCall since_summarizeByDomain since_finishSweep split: prod.splits)

lemma since_processSweep:
  "allEffects (listsSince (getIncrementalScanDate (sweepEvents env) u 24 (nowAtScanCheck env)))
     (processSweep env u sid)"
  unfolding processSweep_def
  by (auto intro!: allEffects_intros since_notify since_sweepBody since_sweepFailed
      split: option.splits)

text \<open>
  The order of the query: the row it returns is one of the rows, and no row sorts
  before it.
\<close>

lemma startsLater_irrefl: "\<not> startsLater a a"
  by (simp add: startsLater_def split: option.splits)

lemma startsLater_asym: "startsLater a b \<Longrightarrow> \<not> startsLater b a"
  by (auto simp: startsLater_def split: option.splits)

lemma startsLater_negtrans:
  "\<not> startsLater a b \<Longrightarrow> \<not> startsLater b c \<Longrightarrow> \<not> startsLater a c"
  by (auto simp: startsLater_def split: option.splits)

lemma firstByStart_None: "firstByStart rs = None \<longleftrightarrow> rs = []"
  by (induction rs) (auto split: option.splits)

lemma firstByStart_first:
  "firstByStart rs = Some b \<Longrightarrow> b \<in> set rs \<and> (\<forall>r \<in> set rs. \<not> startsLater r b)"
proof (induction rs arbitrary: b)
  case Nil
  then show ?case by simp
next
  case (Cons r rs)
  show ?case
  proof (cases "firstByStart rs")
    case None
    then have "rs = []" by (simp add: firstByStart_None)
    with Cons.prems None show ?thesis by (simp add: startsLater_irrefl)
  next
    case (Some b')
    from Cons.IH[OF Some] have b': "b' \<in> set rs" "\<forall>x \<in> set rs. \<not> startsLater x b'" by auto
    show ?thesis
    proof (cases "startsLater b' r")
      case True
      with Cons.prems Some have "b = b'" by simp
      with b' True show ?thesis by (auto dest: startsLater_asym)
    next
      case False
      with Cons.prems Some have br: "b = r" by simp
      have "\<not> startsLater x r" if "x \<in> set rs" for x
        using b'(2) that False startsLater_negtrans by blast
      then show ?thesis unfolding br by (simp add: startsLater_irrefl)
    qed
  qed
qed

text \<open>
  The query returns a row that started at \<open>d\<close> exactly when a completed sweep of the user
  started at \<open>d\<close> and every completed sweep of the user has a start instant, none later
  than \<open>d\<close>: a completed sweep without a start instant sorts first and is the row
  returned.
\<close>

lemma latestCompleted_iff:
  "(\<exists>sweep. latestCompleted tbl userId = Some sweep \<and> se_started_at sweep = Some d) \<longleftrightarrow>
     (\<exists>s \<in> set tbl. se_user_id s = userId \<and> se_status s = Completed \<and>
                     se_started_at s = Some d) \<and>
     (\<forall>r \<in> set tbl. se_user_id r = userId \<and> se_status r = Completed \<longrightarrow>
                     (\<exists>x. se_started_at r = Some x \<and> x \<le> d))"
proof
  let ?rs = "filter (\<lambda>r. se_user_id r = userId \<and> se_status r = Completed) tbl"
  assume "\<exists>sweep. latestCompleted tbl userId = Some sweep \<and> se_started_at sweep = Some d"
  then obtain b where b: "firstByStart ?rs = Some b" "se_started_at b = Some d"
    by (auto simp: latestCompleted_def)
  from firstByStart_first[OF b(1)] have mem: "b \<in> set ?rs"
    and first: "\<forall>r \<in> set ?rs. \<not> startsLater r b" by auto
  have "\<exists>x. se_started_at r = Some x \<and> x \<le> d"
    if "r \<in> set tbl" "se_user_id r = userId \<and> se_status r = Completed" for r
  proof -
    from that have "r \<in> set ?rs" by simp
    with first have "\<not> startsLater r b" by blast
    with b(2) show ?thesis by (auto simp: startsLater_def split: option.splits)
  qed
  with mem b(2) show "(\<exists>s \<in> set tbl. se_user_id s = userId \<and> se_status s = Completed \<and>
                     se_started_at s = Some d) \<and>
     (\<forall>r \<in> set tbl. se_user_id r = userId \<and> se_status r = Completed \<longrightarrow>
                     (\<exists>x. se_started_at r = Some x \<and> x \<le> d))"
    by auto
next
  let ?rs = "filter (\<lambda>r. se_user_id r = userId \<and> se_status r = Completed) tbl"
  assume rhs: "(\<exists>s \<in> set tbl. se_user_id s = userId \<and> se_status s = Completed \<and>
                     se_started_at s = Some d) \<and>
     (\<forall>r \<in> set tbl. se_user_id r = userId \<and> se_status r = Completed \<longrightarrow>
                     (\<exists>x. se_started_at r = Some x \<and> x \<le> d))"
  then obtain s where s: "s \<in> set ?rs" "se_started_at s = Some d" by auto
  then have "?rs \<noteq> []" by (metis empty_iff empty_set)
  then obtain b where b: "firstByStart ?rs = Some b"
    using firstByStart_None[of ?rs] by (cases "firstByStart ?rs") auto
  from firstByStart_first[OF b] have mem: "b \<in> set ?rs"
    and first: "\<forall>r \<in> set ?rs. \<not> startsLater r b" by auto
  from mem rhs obtain x where x: "se_started_at b = Some x" "x \<le> d" by auto
  from first s(1) have "\<not> startsLater s b" by blast
  with s(2) x have "x = d" by (auto simp: startsLater_def)
  with x b show "\<exists>sweep. latestCompleted tbl userId = Some sweep \<and> se_started_at sweep = Some d"
    by (auto simp: latestCompleted_def)
qed

text \<open>
  \<^verbatim>\<open>getIncrementalScanDate\<close> with a window of 24 hours returns the instant \<open>d\<close> exactly
  when the query succeeds, \<open>d\<close> is the latest start instant among the completed sweeps of
  the user, each of which has one, and \<open>d\<close> is at most 24 hours before the clock.
\<close>

lemma scan_date_iff:
  "getIncrementalScanDate answer userId 24 now = Some d \<longleftrightarrow>
     (\<exists>tbl. answer = Inr tbl \<and>
        (\<exists>s \<in> set tbl. se_user_id s = userId \<and> se_status s = Completed \<and>
                        se_started_at s = Some d) \<and>
        (\<forall>r \<in> set tbl. se_user_id r = userId \<and> se_status r = Completed \<longrightarrow>
                        (\<exists>x. se_started_at r = Some x \<and> x \<le> d)) \<and>
        now - d \<le> 24 * 60 * 60 * 1000)"
proof -
  have hours: "(real_of_int (now - s) / (1000 * 60 * 60) > real 24) \<longleftrightarrow>
               \<not> (now - s \<le> 24 * 60 * 60 * 1000)" for s
    by (simp add: field_simps) linarith
  have "getIncrementalScanDate answer userId 24 now = Some d \<longleftrightarrow>
          (\<exists>tbl. answer = Inr tbl \<and>
             (\<exists>sweep. latestCompleted tbl userId = Some sweep \<and> se_started_at sweep = Some d) \<and>
             now - d \<le> 24 * 60 * 60 * 1000)"
    unfolding getIncrementalScanDate_def completedSweepQuery_def Let_def hours
    by (auto split: option.splits sum.splits)
  then show ?thesis unfolding latestCompleted_iff by blast
qed

text \<open>The effects of a run start with the effects of its first stage.\<close>

lemma fst_andThen: "\<exists>rest. fst (andThen m f) = fst m @ rest"
  by (auto simp: andThen_def split: prod.splits sum.splits)

lemma fst_andThen_Inr: "m = (t, Inr x) \<Longrightarrow> fst (andThen m f) = t @ fst (f x)"
  by (auto simp: andThen_def split: prod.splits)

lemma fst_tryCatch: "\<exists>rest. fst (tryCatch m h) = fst m @ rest"
  by (auto simp: tryCatch_def split: prod.splits sum.splits)

text \<open>
  A sweep whose user and mailbox are found and whose access token is valid or refreshed
  marks the job as processing and then calls \<^verbatim>\<open>listEmails\<close> with the plan and with what
  \<^verbatim>\<open>getIncrementalScanDate\<close> returned.
\<close>

lemma lister_is_called:
  assumes "getUserEmail env userId = Some usr"
    and "gmailAccountOf env userId = (Some acct, None)"
    and "ensureValidAccessToken (listEnv env) acct = (t0, Inr accessToken)"
  shows "\<exists>rest. fst (processSweep env userId sweepEventId)
           = SetProcessing sweepEventId # t0 @
             ListEmails accessToken (orElse (currentPlanOf env userId) ''free'')
               (getIncrementalScanDate (sweepEvents env) userId 24 (nowAtScanCheck env)) # rest"
proof -
  let ?plan = "orElse (currentPlanOf env userId) ''free''"
  let ?since = "getIncrementalScanDate (sweepEvents env) userId 24 (nowAtScanCheck env)"
  let ?op = "listEmailsCall env ?plan ?since"
  obtain r1 where r1: "fst (?op accessToken) = ListEmails accessToken ?plan ?since # r1"
    using fst_andThen[of "emit (ListEmails accessToken ?plan ?since)"]
    by (auto simp: listEmailsCall_def emit_def)
  obtain r2 where r2: "fst (withTokenRefresh (listEnv env) acct ?op)
                         = t0 @ ListEmails accessToken ?plan ?since # r2"
    unfolding withTokenRefresh_def fst_andThen_Inr[OF assms(3)]
    using fst_tryCatch[of "?op accessToken"] r1 by auto
  have "\<exists>K. sweepBody env userId sweepEventId usr
              = andThen (emit (SetProcessing sweepEventId))
                  (\<lambda>u. andThen (withTokenRefresh (listEnv env) acct ?op) K)"
    unfolding sweepBody_def Let_def assms(2) by (simp, blast)
  then obtain K where sb: "sweepBody env userId sweepEventId usr
              = andThen (emit (SetProcessing sweepEventId))
                  (\<lambda>u. andThen (withTokenRefresh (listEnv env) acct ?op) K)" ..
  obtain r where r: "fst (andThen (withTokenRefresh (listEnv env) acct ?op) K)
                       = fst (withTokenRefresh (listEnv env) acct ?op) @ r"
    using fst_andThen by blast
  have em: "emit (SetProcessing sweepEventId) = ([SetProcessing sweepEventId], Inr ())"
    by (simp add: emit_def)
  have r3: "fst (sweepBody env userId sweepEventId usr)
              = SetProcessing sweepEventId # t0 @
                ListEmails accessToken ?plan ?since # (r2 @ r)"
    unfolding sb fst_andThen_Inr[OF em] r r2 by simp
  obtain r4 where "fst (processSweep env userId sweepEventId)
                     = fst (sweepBody env userId sweepEventId usr) @ r4"
    using fst_tryCatch[of "sweepBody env userId sweepEventId usr"]
    by (auto simp: processSweep_def assms(1))
  with r3 show ?thesis by simp
qed

text \<open>
  C1 (as amended). The scan is incremental with since-instant \<open>d\<close> exactly when the query
  for the completed sweeps of the user succeeds, every completed sweep of the user has a
  start instant, \<open>d\<close> is the latest of these start instants, and \<open>d\<close> is no more than 24
  hours before the scan check; when and where a sweep finished plays no part. A sweep
  whose user and mailbox are found and whose access token is obtained calls \<^verbatim>\<open>listEmails\<close>,
  right after marking the job as processing, with the instant \<^verbatim>\<open>getIncrementalScanDate\<close>
  returned (none in a full scan); and every call of \<^verbatim>\<open>listEmails\<close> in any sweep, the one
  repeated after a token refresh included, is given that same since-instant.
\<close>

theorem incremental_iff_recent_start:
  "(getIncrementalScanDate (sweepEvents env) userId 24 (nowAtScanCheck env) = Some d \<longleftrightarrow>
      (\<exists>tbl. sweepEvents env = Inr tbl \<and>
         (\<exists>s \<in> set tbl. se_user_id s = userId \<and> se_status s = Completed \<and>
                         se_started_at s = Some d) \<and>
         (\<forall>r \<in> set tbl. se_user_id r = userId \<and> se_status r = Completed \<longrightarrow>
                         (\<exists>x. se_started_at r = Some x \<and> x \<le> d)) \<and>
         nowAtScanCheck env - d \<le> 24 * 60 * 60 * 1000)) \<and>
   (getUserEmail env userId = Some usr \<longrightarrow>
    gmailAccountOf env userId = (Some acct, None) \<longrightarrow>
    ensureValidAccessToken (listEnv env) acct = (t0, Inr accessToken) \<longrightarrow>
      (\<exists>rest. fst (processSweep env userId sweepEventId)
         = SetProcessing sweepEventId # t0 @
           ListEmails accessToken (orElse (currentPlanOf env userId) ''free'')
             (getIncrementalScanDate (sweepEvents env) userId 24 (nowAtScanCheck env)) # rest)) \<and>
   allEffects
     (listsSince (getIncrementalScanDate (sweepEvents env) userId 24 (nowAtScanCheck env)))
     (processSweep env userId sweepEventId)"
proof (intro conjI impI)
  show "getIncrementalScanDate (sweepEvents env) userId 24 (nowAtScanCheck env) = Some d \<longleftrightarrow>
      (\<exists>tbl. sweepEvents env = Inr tbl \<and>
         (\<exists>s \<in> set tbl. se_user_id s = userId \<and> se_status s = Completed \<and>
                         se_started_at s = Some d) \<and>
         (\<forall>r \<in> set tbl. se_user_id r = userId \<and> se_status r = Completed \<longrightarrow>
                         (\<exists>x. se_started_at r = Some x \<and> x \<le> d)) \<and>
         nowAtScanCheck env - d \<le> 24 * 60 * 60 * 1000)"
    by (rule scan_date_iff)
next
  assume "getUserEmail env userId = Some usr" "gmailAccountOf env userId = (Some acct, None)"
    "ensureValidAccessToken (listEnv env) acct = (t0, Inr accessToken)"
  then show "\<exists>rest. fst (processSweep env userId sweepEventId)
         = SetProcessing sweepEventId # t0 @
           ListEmails accessToken (orElse (currentPlanOf env userId) ''free'')
             (getIncrementalScanDate (sweepEvents env) userId 24 (nowAtScanCheck env)) # rest"
    by (rule lister_is_called)
next
  show "allEffects
     (listsSince (getIncrementalScanDate (sweepEvents env) userId 24 (nowAtScanCheck env)))
     (processSweep env userId sweepEventId)"
    by (rule since_processSweep)
qed

text \<open>
  The theorem at the sample world, whose completed sweeps of user u1 started 1000 ms after
  the epoch and one hour before the scan check: the lister is called with the later start
  instant, and no call of the lister in the run has another.
\<close>

theorem incremental_iff_recent_start_witness:
  "getIncrementalScanDate (sweepEvents sampleEnv) ''u1'' 24 (nowAtScanCheck sampleEnv)
     = Some 86400000 \<and>
   (\<exists>rest. fst (processSweep sampleEnv ''u1'' ''s9'')
      = SetProcessing ''s9'' # ListEmails ''old-token'' ''free'' (Some 86400000) # rest) \<and>
   list_all (listsSince (Some 86400000)) (fst (processSweep sampleEnv ''u1'' ''s9''))"
proof -
  note inst = incremental_iff_recent_start
    [of sampleEnv "''u1''" 86400000 "\<lparr>u_email = Some ''ann@example.com''\<rparr>" sampleAccount
        "[]" "''old-token''" "''s9''"]
  have "\<exists>tbl. sweepEvents sampleEnv = Inr tbl \<and>
         (\<exists>s \<in> set tbl. se_user_id s = ''u1'' \<and> se_status s = Completed \<and>
                         se_started_at s = Some 86400000) \<and>
         (\<forall>r \<in> set tbl. se_user_id r = ''u1'' \<and> se_status r = Completed \<longrightarrow>
                         (\<exists>x. se_started_at r = Some x \<and> x \<le> 86400000)) \<and>
         nowAtScanCheck sampleEnv - 86400000 \<le> 24 * 60 * 60 * 1000"
    by (simp add: sampleEnv_def)
  with inst have since: "getIncrementalScanDate (sweepEvents sampleEnv) ''u1'' 24
                          (nowAtScanCheck sampleEnv) = Some 86400000"
    by blast
  have usr: "getUserEmail sampleEnv ''u1'' = Some \<lparr>u_email = Some ''ann@example.com''\<rparr>"
    by (simp add: sampleEnv_def)
  have acct: "gmailAccountOf sampleEnv ''u1'' = (Some sampleAccount, None)"
    by (simp add: sampleEnv_def)
  have tok: "ensureValidAccessToken (listEnv sampleEnv) sampleAccount = ([], Inr ''old-token'')"
    by code_simp
  have plan: "orElse (currentPlanOf sampleEnv ''u1'') ''free'' = ''free''"
    by (simp add: sampleEnv_def orElse_def truthy_def)
  from inst usr acct tok
  have "\<exists>rest. fst (processSweep sampleEnv ''u1'' ''s9'')
         = SetProcessing ''s9'' # [] @
           ListEmails ''old-token'' (orElse (currentPlanOf sampleEnv ''u1'') ''free'')
             (getIncrementalScanDate (sweepEvents sampleEnv) ''u1'' 24
                (nowAtScanCheck sampleEnv)) # rest"
    by blast
  then have called: "\<exists>rest. fst (processSweep sampleEnv ''u1'' ''s9'')
      = SetProcessing ''s9'' # ListEmails ''old-token'' ''free'' (Some 86400000) # rest"
    unfolding since plan by simp
  from inst have "allEffects (listsSince (Some 86400000)) (processSweep sampleEnv ''u1'' ''s9'')"
    unfolding since by blast
  then have all: "list_all (listsSince (Some 86400000))
                    (fst (processSweep sampleEnv ''u1'' ''s9''))"
    unfolding allEffects_def .
  from since called all show ?thesis by (intro conjI)
qed

text \<open>
  C1 as stated fails: a completed sweep that started 25 hours before the scan check and
  finished 23 hours before it (within the last 24 hours) gives a full scan.
\<close>

theorem finished_recently_full_scan_counterexample:
  "latestCompleted
     [\<lparr>se_id = ''s0'', se_user_id = ''u1'', se_status = Completed,
       se_started_at = Some 0, se_completed_at = Some 7200000\<rparr>] ''u1''
     = Some \<lparr>se_id = ''s0'', se_user_id = ''u1'', se_status = Completed,
             se_started_at = Some 0, se_completed_at = Some 7200000\<rparr> \<and>
   (90000000::int) - 7200000 \<le> 24 * 60 * 60 * 1000 \<and>
   getIncrementalScanDate
     (Inr [\<lparr>se_id = ''s0'', se_user_id = ''u1'', se_status = Completed,
            se_started_at = Some 0, se_completed_at = Some 7200000\<rparr>]) ''u1'' 24 90000000 = None"
  by (simp add: getIncrementalScanDate_def completedSweepQuery_def latestCompleted_def)

section \<open>Plan limit on the saved accounts\<close>

text \<open>
  The filtered summaries are in descending order of confidence: none after a position
  scores more than one before it.
\<close>

lemma filteredSummaries_descending:
  assumes "x \<in> set (take k (filteredSummaries ds))" and "y \<in> set (drop k (filteredSummaries ds))"
  shows "en_confidence y \<le> en_confidence x"
proof -
  let ?F = "filteredSummaries ds"
  let ?f = "\<lambda>e. - int (en_confidence e)"
  have "sorted (map ?f ?F)" by (simp add: filteredSummaries_def)
  then have "sorted (map ?f (take k ?F) @ map ?f (drop k ?F))"
    by (simp flip: map_append)
  then have "\<forall>a \<in> set (map ?f (take k ?F)). \<forall>b \<in> set (map ?f (drop k ?F)). a \<le> b"
    by (simp add: sorted_append)
  with assms have "?f x \<le> ?f y" by auto
  then show ?thesis by simp
qed

text \<open>
  The last stage of the sweep on a plan other than pro with more than 50 candidates, when
  its calls succeed.
\<close>

lemma finishSweep_free_plan:
  assumes "currentPlan \<noteq> ''pro''"
    and "length (filteredSummaries domainSummaries) > 50"
    and "getBreachesAnswer env (ga_gmail_address acct) = Inr breaches"
    and "upsertAnswer env = None"
    and "notifyAnswer env SweepCompleted = None"
    and "sendEmailAnswer env completedTemplate = None"
  shows
    "finishSweep env userId sweepEventId usr currentPlan acct isIncremental domainSummaries
       = ((if isIncremental then [] else [DeleteUserServices userId]) @
          [UpsertUserServices
             (map (toUserService userId) (take 50 (filteredSummaries domainSummaries)))] @
          (if breaches = [] then [] else [UpsertUserBreaches userId breaches]) @
          [InsertSweepMetrics userId (length (filteredSummaries domainSummaries))
             (length breaches) isIncremental,
           SetCompleted sweepEventId (length (filteredSummaries domainSummaries))
             (length breaches),
           UpdateLastSweepAt userId,
           Notify userId SweepCompleted (Some (length (filteredSummaries domainSummaries)))
             (Some (length breaches)),
           SendEmail (u_email usr) completedTemplate
             (Some (length (filteredSummaries domainSummaries)))],
          Inr ())"
proof -
  from assms(2) have ne: "filteredSummaries domainSummaries \<noteq> []" by auto
  show ?thesis
    using assms ne
    by (simp add: finishSweep_def saveSweepData_def accountsToSave_def notify_def
        sendEmail_def andThen_def emit_def ret_def lift_def Let_def)
qed

text \<open>
  C8. A sweep (\<^verbatim>\<open>processSweep\<close>) of a user whose plan is not pro (free, or no plan at
  all), whose listing, metadata fetch and grouping return, whose filtered and scored
  candidate list has more than 50 entries, and whose calls of the last stage succeed, has
  exactly the effects listed: one upsert of user-service links, with one row for each of
  the first 50 candidates of the list sorted by descending confidence, each row made of
  the user, the service, the e-mail count, the two dates and the score of its candidate;
  these are 50 rows, and no candidate left out scores more than one that is saved. The
  count in the metrics, on the completed job, in the notification and in the e-mail is
  the length of the whole list.
\<close>

theorem free_plan_saves_top_50:
  assumes "getUserEmail env userId = Some usr"
    and "orElse (currentPlanOf env userId) ''free'' \<noteq> ''pro''"
    and "gmailAccountOf env userId = (Some acct, None)"
    and "withTokenRefresh (listEnv env) acct
           (listEmailsCall env (orElse (currentPlanOf env userId) ''free'')
              (getIncrementalScanDate (sweepEvents env) userId 24 (nowAtScanCheck env)))
         = (t1, Inr messages)"
    and "withTokenRefresh (fetchEnv env) acct (fetchMetadataCall env sweepEventId messages)
         = (t2, Inr metadataList)"
    and "summarizeByDomain (services env) metadataList = (t3, Inr domainSummaries)"
    and "length (filteredSummaries domainSummaries) > 50"
    and "getBreachesAnswer env (ga_gmail_address acct) = Inr breaches"
    and "upsertAnswer env = None"
    and "notifyAnswer env SweepCompleted = None"
    and "sendEmailAnswer env completedTemplate = None"
  shows
    "processSweep env userId sweepEventId
       = (SetProcessing sweepEventId # t1 @ t2 @ t3 @
          (if getIncrementalScanDate (sweepEvents env) userId 24 (nowAtScanCheck env) \<noteq> None
           then [] else [DeleteUserServices userId]) @
          [UpsertUserServices
             (map (\<lambda>e. \<lparr>us_user_id = userId,
                         us_service_id = da_serviceId (en_summary e),
                         us_email_count = da_emailCount (en_summary e),
                         us_first_seen_at = da_firstSeenAt (en_summary e),
                         us_last_seen_at = da_lastSeenAt (en_summary e),
                         us_confidence_score = en_confidence e\<rparr>)
                (take 50 (filteredSummaries domainSummaries)))] @
          (if breaches = [] then [] else [UpsertUserBreaches userId breaches]) @
          [InsertSweepMetrics userId (length (filteredSummaries domainSummaries))
             (length breaches)
             (getIncrementalScanDate (sweepEvents env) userId 24 (nowAtScanCheck env) \<noteq> None),
           SetCompleted sweepEventId (length (filteredSummaries domainSummaries))
             (length breaches),
           UpdateLastSweepAt userId,
           Notify userId SweepCompleted (Some (length (filteredSummaries domainSummaries)))
             (Some (length breaches)),
           SendEmail (u_email usr) completedTemplate
             (Some (length (filteredSummaries domainSummaries)))],
          Inr ()) \<and>
     length (take 50 (filteredSummaries domainSummaries)) = 50 \<and>
     (\<forall>x \<in> set (take 50 (filteredSummaries domainSummaries)).
        \<forall>y \<in> set (drop 50 (filteredSummaries domainSummaries)).
          en_confidence y \<le> en_confidence x)"
proof (intro conjI ballI)
  let ?since = "getIncrementalScanDate (sweepEvents env) userId 24 (nowAtScanCheck env)"
  have rows: "map (toUserService userId) xs
     = map (\<lambda>e. \<lparr>us_user_id = userId,
                         us_service_id = da_serviceId (en_summary e),
                         us_email_count = da_emailCount (en_summary e),
                         us_first_seen_at = da_firstSeenAt (en_summary e),
                         us_last_seen_at = da_lastSeenAt (en_summary e),
                         us_confidence_score = en_confidence e\<rparr>) xs" for xs
    by (simp add: toUserService_def)
  note fin = finishSweep_free_plan[OF assms(2) assms(7) assms(8) assms(9) assms(10) assms(11)]
  have body: "sweepBody env userId sweepEventId usr
     = (SetProcessing sweepEventId # t1 @ t2 @ t3 @
        fst (finishSweep env userId sweepEventId usr (orElse (currentPlanOf env userId) ''free'')
               acct (?since \<noteq> None) domainSummaries), Inr ())"
    unfolding sweepBody_def Let_def assms(3)
    by (simp add: assms(4,5,6) andThen_def emit_def fin)
  show "processSweep env userId sweepEventId
       = (SetProcessing sweepEventId # t1 @ t2 @ t3 @
          (if ?since \<noteq> None then [] else [DeleteUserServices userId]) @
          [UpsertUserServices
             (map (\<lambda>e. \<lparr>us_user_id = userId,
                         us_service_id = da_serviceId (en_summary e),
                         us_email_count = da_emailCount (en_summary e),
                         us_first_seen_at = da_firstSeenAt (en_summary e),
                         us_last_seen_at = da_lastSeenAt (en_summary e),
                         us_confidence_score = en_confidence e\<rparr>)
                (take 50 (filteredSummaries domainSummaries)))] @
          (if breaches = [] then [] else [UpsertUserBreaches userId breaches]) @
          [InsertSweepMetrics userId (length (filteredSummaries domainSummaries))
             (length breaches) (?since \<noteq> None),
           SetCompleted sweepEventId (length (filteredSummaries domainSummaries))
             (length breaches),
           UpdateLastSweepAt userId,
           Notify userId SweepCompleted (Some (length (filteredSummaries domainSummaries)))
             (Some (length breaches)),
           SendEmail (u_email usr) completedTemplate
             (Some (length (filteredSummaries domainSummaries)))],
          Inr ())"
    unfolding processSweep_def assms(1) option.case body
    by (simp add: tryCatch_def fin rows)
next
  show "length (take 50 (filteredSummaries domainSummaries)) = 50"
    using assms(7) by simp
next
  fix x y
  assume "x \<in> set (take 50 (filteredSummaries domainSummaries))"
    and "y \<in> set (drop 50 (filteredSummaries domainSummaries))"
  then show "en_confidence y \<le> en_confidence x" by (rule filteredSummaries_descending)
qed

text \<open>
  The sweep of the busy mailbox, stage by stage: 51 messages of 51 senders, each its own
  domain; the first ten score 10, the others 13.
\<close>

lemma busy_since:
  "getIncrementalScanDate (sweepEvents busyEnv) ''u1'' 24 (nowAtScanCheck busyEnv)
     = Some 86400000"
  by code_simp

lemma busy_list:
  "withTokenRefresh (listEnv busyEnv) sampleAccount
     (listEmailsCall busyEnv (orElse (currentPlanOf busyEnv ''u1'') ''free'')
        (getIncrementalScanDate (sweepEvents busyEnv) ''u1'' 24 (nowAtScanCheck busyEnv)))
   = ([ListEmails ''old-token'' ''free'' (Some 86400000)], Inr busyMessages)"
  by code_simp

lemma busy_fetch:
  "withTokenRefresh (fetchEnv busyEnv) sampleAccount
     (fetchMetadataCall busyEnv ''s9'' busyMessages)
   = ([FetchMetadata ''old-token'' (map showNat [0..<51]), SetProgress ''s9'' 100],
      Inr (map busyMetadata [0..<51]))"
  by code_simp

lemma busy_summarize:
  "summarizeByDomain (services busyEnv) (map busyMetadata [0..<51])
     = ([], Inr (map busyAggregate [0..<51]))"
  by code_simp

lemma busy_filtered:
  "filteredSummaries (map busyAggregate [0..<51])
     = map (\<lambda>i. \<lparr>en_summary = busyAggregate i,
                    en_confidence = (if i < 10 then 10 else 13)\<rparr>) ([10..<51] @ [0..<10])"
  by code_simp

text \<open>
  The theorem at the busy mailbox, on the free plan: of the 51 candidates the 41 that
  score 13 and the first nine of those that score 10 are saved, 50 rows, and the count
  reported everywhere is 51.
\<close>

theorem free_plan_saves_top_50_witness:
  "length (filteredSummaries (map busyAggregate [0..<51])) = 51 \<and>
   processSweep busyEnv ''u1'' ''s9''
     = ([SetProcessing ''s9'',
         ListEmails ''old-token'' ''free'' (Some 86400000),
         FetchMetadata ''old-token'' (map showNat [0..<51]),
         SetProgress ''s9'' 100,
         UpsertUserServices
           (map (\<lambda>i. \<lparr>us_user_id = ''u1'',
                       us_service_id = Some (''svc-s'' @ showNat i @ ''.io''),
                       us_email_count = 1,
                       us_first_seen_at = None,
                       us_last_seen_at = None,
                       us_confidence_score = (if i < 10 then 10 else 13)\<rparr>)
              ([10..<51] @ [0..<9])),
         InsertSweepMetrics ''u1'' 51 0 True,
         SetCompleted ''s9'' 51 0,
         UpdateLastSweepAt ''u1'',
         Notify ''u1'' SweepCompleted (Some 51) (Some 0),
         SendEmail (Some ''ann@example.com'') completedTemplate (Some 51)],
        Inr ())"
proof -
  let ?F = "filteredSummaries (map busyAggregate [0..<51])"
  have n: "length ?F = 51" unfolding busy_filtered by simp
  have h1: "getUserEmail busyEnv ''u1'' = Some \<lparr>u_email = Some ''ann@example.com''\<rparr>"
    by (simp add: busyEnv_def sampleEnv_def)
  have h2: "orElse (currentPlanOf busyEnv ''u1'') ''free'' \<noteq> ''pro''"
    by (simp add: busyEnv_def sampleEnv_def orElse_def truthy_def)
  have h3: "gmailAccountOf busyEnv ''u1'' = (Some sampleAccount, None)"
    by (simp add: busyEnv_def sampleEnv_def)
  have h7: "length ?F > 50" by (simp add: n)
  have h8: "getBreachesAnswer busyEnv (ga_gmail_address sampleAccount) = Inr []"
    by (simp add: busyEnv_def sampleEnv_def)
  have h9: "upsertAnswer busyEnv = None" by (simp add: busyEnv_def sampleEnv_def)
  have h10: "notifyAnswer busyEnv SweepCompleted = None" by (simp add: busyEnv_def sampleEnv_def)
  have h11: "sendEmailAnswer busyEnv completedTemplate = None"
    by (simp add: busyEnv_def sampleEnv_def)
  have top: "take 50 ?F
     = map (\<lambda>i. \<lparr>en_summary = busyAggregate i,
                    en_confidence = (if i < 10 then 10 else 13)\<rparr>) ([10..<51] @ [0..<9])"
    unfolding busy_filtered take_map by (simp add: upt_rec)
  have rows: "map (\<lambda>e. \<lparr>us_user_id = ''u1'',
                         us_service_id = da_serviceId (en_summary e),
                         us_email_count = da_emailCount (en_summary e),
                         us_first_seen_at = da_firstSeenAt (en_summary e),
                         us_last_seen_at = da_lastSeenAt (en_summary e),
                         us_confidence_score = en_confidence e\<rparr>) (take 50 ?F)
     = map (\<lambda>i. \<lparr>us_user_id = ''u1'',
                       us_service_id = Some (''svc-s'' @ showNat i @ ''.io''),
                       us_email_count = 1,
                       us_first_seen_at = None,
                       us_last_seen_at = None,
                       us_confidence_score = (if i < 10 then 10 else 13)\<rparr>)
              ([10..<51] @ [0..<9])"
    unfolding top by (simp add: busyAggregate_def comp_def)
  have "processSweep busyEnv ''u1'' ''s9''
       = (SetProcessing ''s9'' # [ListEmails ''old-token'' ''free'' (Some 86400000)] @
          [FetchMetadata ''old-token'' (map showNat [0..<51]), SetProgress ''s9'' 100] @ [] @
          (if getIncrementalScanDate (sweepEvents busyEnv) ''u1'' 24 (nowAtScanCheck busyEnv)
                \<noteq> None
           then [] else [DeleteUserServices ''u1'']) @
          [UpsertUserServices
             (map (\<lambda>e. \<lparr>us_user_id = ''u1'',
                         us_service_id = da_serviceId (en_summary e),
                         us_email_count = da_emailCount (en_summary e),
                         us_first_seen_at = da_firstSeenAt (en_summary e),
                         us_last_seen_at = da_lastSeenAt (en_summary e),
                         us_confidence_score = en_confidence e\<rparr>)
                (take 50 ?F))] @
          (if ([]::breach list) = [] then [] else [UpsertUserBreaches ''u1'' []]) @
          [InsertSweepMetrics ''u1'' (length ?F) (length ([]::breach list))
             (getIncrementalScanDate (sweepEvents busyEnv) ''u1'' 24 (nowAtScanCheck busyEnv)
                \<noteq> None),
           SetCompleted ''s9'' (length ?F) (length ([]::breach list)),
           UpdateLastSweepAt ''u1'',
           Notify ''u1'' SweepCompleted (Some (length ?F)) (Some (length ([]::breach list))),
           SendEmail (u_email \<lparr>u_email = Some ''ann@example.com''\<rparr>) completedTemplate
             (Some (length ?F))],
          Inr ())"
    using free_plan_saves_top_50
      [OF h1 h2 h3 busy_list busy_fetch busy_summarize h7 h8 h9 h10 h11]
    by (rule conjunct1)
  then show ?thesis
    unfolding rows n busy_since by simp
qed

section \<open>Token vault round trip\<close>








end
